theory Spec2Isabelle
  imports Main "HOL-Library.Word" "HOL-Library.Multiset"
begin

section \<open>Go strings and the library calls the reflector makes\<close>

text \<open>
  A Go string is a sequence of bytes, here a \<open>string\<close> (a list of 8-bit characters).
  The library functions of \<open>strings\<close> and \<open>fmt\<close> that \<open>reflection.go\<close> calls are
  written out below as the Go standard library defines them.
\<close>

text \<open>
  \<open>unicode.IsSpace\<close> (and the table \<open>space\<close> of package \<open>fmt\<close>) accepts the code points
  U+0009..U+000D, U+0020, U+0085, U+00A0, U+1680, U+2000..U+200A, U+2028, U+2029, U+202F,
  U+205F and U+3000. \<open>spaceRune s\<close> is the rest of \<open>s\<close> after one such code point in UTF-8
  at its start, and \<open>None\<close> when \<open>s\<close> does not start with one.
\<close>

fun spaceRune :: "string \<Rightarrow> string option" where
  "spaceRune [] = None"
| "spaceRune (c # cs) =
     (let b = (of_char c :: nat) in
      if (9 \<le> b \<and> b \<le> 13) \<or> b = 32 then Some cs
      else if b = 0xC2 then
        (case cs of
           d # ds \<Rightarrow> if of_char d = (0x85 :: nat) \<or> of_char d = (0xA0 :: nat) then Some ds else None
         | [] \<Rightarrow> None)
      else if b = 0xE1 then
        (case cs of
           d # e # es \<Rightarrow>
             if of_char d = (0x9A :: nat) \<and> of_char e = (0x80 :: nat) then Some es else None
         | _ \<Rightarrow> None)
      else if b = 0xE2 then
        (case cs of
           d # e # es \<Rightarrow>
             (let x = (of_char d :: nat); y = (of_char e :: nat) in
              if (x = 0x80 \<and> ((0x80 \<le> y \<and> y \<le> 0x8A) \<or> y = 0xA8 \<or> y = 0xA9 \<or> y = 0xAF))
                 \<or> (x = 0x81 \<and> y = 0x9F)
              then Some es else None)
         | _ \<Rightarrow> None)
      else if b = 0xE3 then
        (case cs of
           d # e # es \<Rightarrow>
             if of_char d = (0x80 :: nat) \<and> of_char e = (0x80 :: nat) then Some es else None
         | _ \<Rightarrow> None)
      else None)"

text \<open>The same test at the end of a string: \<open>s\<close> is given reversed.\<close>

fun spaceRuneRev :: "string \<Rightarrow> string option" where
  "spaceRuneRev [] = None"
| "spaceRuneRev (c # cs) =
     (let b = (of_char c :: nat) in
      if (9 \<le> b \<and> b \<le> 13) \<or> b = 32 then Some cs
      else
        (case cs of
           d # ds \<Rightarrow>
             (let x = (of_char d :: nat) in
              if x = 0xC2 \<and> (b = 0x85 \<or> b = 0xA0) then Some ds
              else
                (case ds of
                   e # es \<Rightarrow>
                     (let y = (of_char e :: nat) in
                      if (y = 0xE1 \<and> x = 0x9A \<and> b = 0x80)
                         \<or> (y = 0xE2 \<and> x = 0x80
                              \<and> ((0x80 \<le> b \<and> b \<le> 0x8A) \<or> b = 0xA8 \<or> b = 0xA9 \<or> b = 0xAF))
                         \<or> (y = 0xE2 \<and> x = 0x81 \<and> b = 0x9F)
                         \<or> (y = 0xE3 \<and> x = 0x80 \<and> b = 0x80)
                      then Some es else None)
                 | [] \<Rightarrow> None))
         | [] \<Rightarrow> None))"

function TrimLeftSpace :: "string \<Rightarrow> string" where
  "TrimLeftSpace s = (case spaceRune s of None \<Rightarrow> s | Some r \<Rightarrow> TrimLeftSpace r)"
  by pat_completeness auto
termination
proof (relation "measure length")
  show "wf (measure length)" by simp
next
  fix s r :: string
  assume "spaceRune s = Some r"
  then have "length r < length s"
    by (cases s rule: spaceRune.cases)
       (auto simp: Let_def split: if_splits list.splits)
  then show "(r, s) \<in> measure length" by simp
qed

function TrimRightSpaceRev :: "string \<Rightarrow> string" where
  "TrimRightSpaceRev s = (case spaceRuneRev s of None \<Rightarrow> s | Some r \<Rightarrow> TrimRightSpaceRev r)"
  by pat_completeness auto
termination
proof (relation "measure length")
  show "wf (measure length)" by simp
next
  fix s r :: string
  assume "spaceRuneRev s = Some r"
  then have "length r < length s"
    by (cases s rule: spaceRuneRev.cases)
       (auto simp: Let_def split: if_splits list.splits)
  then show "(r, s) \<in> measure length" by simp
qed

text \<open>\<open>strings.TrimSpace\<close>: all leading and all trailing white space removed.\<close>

definition TrimSpace :: "string \<Rightarrow> string" where
  "TrimSpace s = rev (TrimRightSpaceRev (rev (TrimLeftSpace s)))"

text \<open>
  \<open>strings.Split(s, sep)\<close> for a separator of one byte, the only kind the source passes
  (\<open>","\<close> and \<open>"|"\<close>). As in the library, the piece before the first separator is
  cut off and the rest is split on, until no separator is left; the last piece is what
  remains, so the result is never the empty list.
\<close>

function Split :: "string \<Rightarrow> char \<Rightarrow> string list" where
  "Split s sep =
     (if sep \<in> set s
      then takeWhile (\<lambda>c. c \<noteq> sep) s # Split (tl (dropWhile (\<lambda>c. c \<noteq> sep) s)) sep
      else [s])"
  by pat_completeness auto
termination
proof (relation "measure (\<lambda>(s, sep). length s)")
  show "wf (measure (\<lambda>(s, sep). length s))" by simp
next
  fix s :: string and sep :: char
  assume "sep \<in> set s"
  then have "dropWhile (\<lambda>c. c \<noteq> sep) s \<noteq> []" by simp
  then have "length (tl (dropWhile (\<lambda>c. c \<noteq> sep) s)) < length (dropWhile (\<lambda>c. c \<noteq> sep) s)"
    by simp
  also have "\<dots> \<le> length s" by (rule length_dropWhile_le)
  finally show "((tl (dropWhile (\<lambda>c. c \<noteq> sep) s), sep), (s, sep)) \<in> measure (\<lambda>(s, sep). length s)"
    by simp
qed

text \<open>\<open>strings.SplitN(s, sep, 2)\<close> for a separator of one byte: split at the first one only.\<close>

definition SplitN2 :: "string \<Rightarrow> char \<Rightarrow> string list" where
  "SplitN2 s sep =
     (if sep \<in> set s then [takeWhile (\<lambda>c. c \<noteq> sep) s, tl (dropWhile (\<lambda>c. c \<noteq> sep) s)]
      else [s])"

subsection \<open>Scanning an integer with \<open>fmt.Sscanf(s, "%d", &i)\<close>\<close>

text \<open>
  \<open>SkipSpace\<close> of the scanner state of \<open>fmt\<close>, as \<open>Sscanf\<close> sets it up (a newline is not
  white space there): \<open>None\<close> is the error "unexpected newline".
\<close>

function SkipSpace :: "string \<Rightarrow> string option" where
  "SkipSpace s =
     (case s of
        [] \<Rightarrow> Some []
      | c # cs \<Rightarrow>
          if c = CHR 0x0D \<and> cs \<noteq> [] \<and> hd cs = CHR 0x0A then SkipSpace cs
          else if c = CHR 0x0A then None
          else (case spaceRune s of None \<Rightarrow> Some s | Some r \<Rightarrow> SkipSpace r))"
  by pat_completeness auto
termination
proof (relation "measure length")
  show "wf (measure length)" by simp
next
  fix s cs :: string and c :: char
  assume "s = c # cs"
  then show "(cs, s) \<in> measure length" by simp
next
  fix s r :: string
  assume "spaceRune s = Some r"
  then have "length r < length s"
    by (cases s rule: spaceRune.cases)
       (auto simp: Let_def split: if_splits list.splits)
  then show "(r, s) \<in> measure length" by simp
qed

text \<open>
  The defining equations of the four loops above apply to every argument, so that as
  rewrite rules they would unfold without end: they are taken out of the simplifier's
  rules and used by name.
\<close>

declare TrimLeftSpace.simps [simp del] TrimRightSpaceRev.simps [simp del]
  Split.simps [simp del] SkipSpace.simps [simp del]

definition isDigit :: "char \<Rightarrow> bool" where
  "isDigit c = (48 \<le> (of_char c :: nat) \<and> (of_char c :: nat) \<le> 57)"

definition decimal :: "string \<Rightarrow> int" where
  "decimal ds = foldl (\<lambda>a c. 10 * a + (int (of_char c) - 48)) 0 ds"

text \<open>
  \<open>parseIntHelper\<close> returns \<open>(i, err)\<close>; \<open>Some n\<close> stands for \<open>(n, nil)\<close> and \<open>None\<close> for a
  non-nil \<open>err\<close>. The verb \<open>%d\<close> skips leading white space, accepts one optional sign and
  then the longest run of decimal digits (at least one), and converts the token with
  \<open>strconv.ParseInt(tok, 10, 64)\<close>, which fails outside the range of \<open>int\<close> (64 bits, as
  on every 64-bit platform).
  \<open>Sscanf\<close> does not look at the input after the token: whatever follows is no error.
\<close>

definition parseIntHelper :: "string \<Rightarrow> int option" where
  "parseIntHelper s =
     (case SkipSpace s of
        None \<Rightarrow> None
      | Some r \<Rightarrow>
          (let neg = (r \<noteq> [] \<and> hd r = CHR ''-'');
               r1 = (if r \<noteq> [] \<and> (hd r = CHR ''+'' \<or> hd r = CHR ''-'') then tl r else r);
               ds = takeWhile isDigit r1;
               n = (if neg then - decimal ds else decimal ds)
           in if ds = [] then None
              else if - (2 ^ 63) \<le> n \<and> n < 2 ^ 63 then Some n
              else None))"

subsection \<open>Schema values\<close>

text \<open>A \<open>float64\<close>, held as its IEEE 754 bit pattern; the zero value is the pattern 0.\<close>

datatype float64 = Float64bits "64 word"

text \<open>
  The values the reflector stores in a \<open>map[string]interface{}\<close>: strings, \<open>int\<close>s,
  \<open>float64\<close>s, booleans, string slices (\<open>enum\<close>, \<open>required\<close>) and nested maps.
\<close>

datatype jvalue =
    JString string
  | JInt int
  | JFloat float64
  | JBool bool
  | JStrings "string list"
  | JObject "string \<Rightarrow> jvalue option"

type_synonym schema = "string \<Rightarrow> jvalue option"

text \<open>
  \<open>parseFloatHelper\<close> is \<open>fmt.Sscanf(s, "%f", &f)\<close>. The conversion of a decimal token to
  the nearest \<open>float64\<close> is not modelled: the scan is a parameter \<open>sf\<close> of the reflector,
  \<open>sf s = Some f\<close> for \<open>(f, nil)\<close> and \<open>None\<close> for a non-nil error.
\<close>

definition parseFloatHelper :: "(string \<Rightarrow> float64 option) \<Rightarrow> string \<Rightarrow> float64 option" where
  "parseFloatHelper sf s = sf s"

definition parseNumber :: "(string \<Rightarrow> float64 option) \<Rightarrow> string \<Rightarrow> jvalue" where
  "parseNumber sf s =
     (case parseIntHelper s of
        Some n \<Rightarrow> JInt n
      | None \<Rightarrow>
          (case parseFloatHelper sf s of
             Some f \<Rightarrow> JFloat f
           | None \<Rightarrow> JString s))"

definition parseValue :: "string \<Rightarrow> string \<Rightarrow> jvalue" where
  "parseValue s typ =
     (if typ = ''integer'' then JInt 0
      else if typ = ''number'' then JFloat (Float64bits 0)
      else if typ = ''boolean'' then JBool (s = ''true'')
      else JString s)"

subsection \<open>The annotation parser\<close>

text \<open>
  The body of the loop of \<open>parseOpenAPITag\<close> for one part of the tag. The state is the
  field's schema and the record's list of required names, which the Go code updates in
  place. \<open>None\<close> is the panic of the type assertion \<open>schema["type"].(string)\<close> when the
  schema holds no string under \<open>"type"\<close>.
\<close>

definition tagPart ::
  "(string \<Rightarrow> float64 option) \<Rightarrow> string \<Rightarrow> string \<Rightarrow> schema \<times> string list
     \<Rightarrow> (schema \<times> string list) option" where
  "tagPart sf fieldName part0 st =
     (let schema = fst st; required = snd st; part = TrimSpace part0 in
      if part = ''required'' then Some (schema, required @ [fieldName])
      else
        (let kv = SplitN2 part (CHR ''='') in
         if length kv \<noteq> 2 then Some (schema, required)
         else
           (let key = TrimSpace (kv ! 0); val = TrimSpace (kv ! 1) in
            if key = ''enum'' then
              Some (schema(''enum'' \<mapsto> JStrings (Split val (CHR ''|''))), required)
            else if key = ''min'' \<or> key = ''minimum'' then
              Some (schema(''minimum'' \<mapsto> parseNumber sf val), required)
            else if key = ''max'' \<or> key = ''maximum'' then
              Some (schema(''maximum'' \<mapsto> parseNumber sf val), required)
            else if key = ''minLength'' then
              Some (schema(''minLength'' \<mapsto> parseNumber sf val), required)
            else if key = ''maxLength'' then
              Some (schema(''maxLength'' \<mapsto> parseNumber sf val), required)
            else if key = ''pattern'' then
              Some (schema(''pattern'' \<mapsto> JString val), required)
            else if key = ''default'' then
              (case schema ''type'' of
                 Some (JString typ) \<Rightarrow> Some (schema(''default'' \<mapsto> parseValue val typ), required)
               | _ \<Rightarrow> None)
            else if key = ''description'' then
              Some (schema(''description'' \<mapsto> JString val), required)
            else if key = ''format'' then
              Some (schema(''format'' \<mapsto> JString val), required)
            else if key = ''example'' then
              (case schema ''type'' of
                 Some (JString typ) \<Rightarrow> Some (schema(''example'' \<mapsto> parseValue val typ), required)
               | _ \<Rightarrow> None)
            else Some (schema, required))))"

text \<open>The loop over the parts of the tag; a panic ends it.\<close>

fun tagParts ::
  "(string \<Rightarrow> float64 option) \<Rightarrow> string \<Rightarrow> string list \<Rightarrow> schema \<times> string list
     \<Rightarrow> (schema \<times> string list) option" where
  "tagParts sf fieldName [] st = Some st"
| "tagParts sf fieldName (p # ps) st =
     (case tagPart sf fieldName p st of
        None \<Rightarrow> None
      | Some st' \<Rightarrow> tagParts sf fieldName ps st')"

definition parseOpenAPITag ::
  "(string \<Rightarrow> float64 option) \<Rightarrow> string \<Rightarrow> schema \<Rightarrow> string list \<Rightarrow> string
     \<Rightarrow> (schema \<times> string list) option" where
  "parseOpenAPITag sf tag schema required fieldName =
     tagParts sf fieldName (Split tag (CHR '','')) (schema, required)"

section \<open>Types as \<open>reflect\<close> presents them\<close>

text \<open>
  A \<open>reflect.Type\<close> is a reference to a type descriptor of the running program, and the
  descriptors refer to each other (\<open>Elem\<close>, the type of a field), with cycles for
  recursive types. A reference is a number, and the descriptors of a program are a
  function from references to descriptors. \<open>Elem\<close> is read only for kinds that have
  an element type and \<open>Fields\<close> only for structs. The kinds are those of
  \<open>reflect.Kind\<close>, with \<open>IntK\<close> for \<open>reflect.Int\<close>.
\<close>

datatype kind =
    Invalid | Bool | IntK | Int8 | Int16 | Int32 | Int64
  | Uint | Uint8 | Uint16 | Uint32 | Uint64 | Uintptr
  | Float32 | Float64 | Complex64 | Complex128
  | Array | Chan | Func | Interface | Map | Ptr | Slice | String | Struct | UnsafePointer

type_synonym tyref = nat

text \<open>
  A \<open>reflect.StructField\<close>: \<open>Tag f key\<close> is \<open>f.Tag.Get(key)\<close>, the empty string when the
  tag has no such key; a field is exported when its \<open>PkgPath\<close> is empty.
\<close>

record StructField =
  Name :: string
  PkgPath :: string
  Type :: tyref
  Tag :: "string \<Rightarrow> string"

definition IsExported :: "StructField \<Rightarrow> bool" where
  "IsExported f = (PkgPath f = '''')"

record rtype =
  Kind :: kind
  Elem :: tyref
  Fields :: "StructField list"

type_synonym types = "tyref \<Rightarrow> rtype"

section \<open>The reflector\<close>

text \<open>
  A \<open>for\<close> loop over a list whose body may fail to return: the state after the last
  element, or \<open>None\<close> as soon as one iteration gives none.
\<close>

primrec forEach :: "('a \<Rightarrow> 's \<Rightarrow> 's option) \<Rightarrow> 'a list \<Rightarrow> 's \<Rightarrow> 's option" where
  "forEach body [] st = Some st"
| "forEach body (x # xs) st = Option.bind (body x st) (forEach body xs)"

text \<open>
  One iteration of the loop of \<open>structToSchema\<close>, for the field \<open>field\<close>. The state is the
  \<open>properties\<close> map and the \<open>required\<close> list; \<open>tts\<close> is the call \<open>typeToSchema(field.Type)\<close>.
\<close>

definition structField ::
  "(string \<Rightarrow> float64 option) \<Rightarrow> (tyref \<Rightarrow> schema option) \<Rightarrow> StructField
     \<Rightarrow> schema \<times> string list \<Rightarrow> (schema \<times> string list) option" where
  "structField sf tts field st =
     (let properties = fst st; required = snd st in
      if \<not> IsExported field then Some st
      else
        (let jsonTag = Tag field ''json'' in
         if jsonTag = '''' \<or> jsonTag = ''-'' then Some st
         else
           (let fieldName = hd (Split jsonTag (CHR '','')); openAPITag = Tag field ''openapi'' in
            Option.bind (tts (Type field)) (\<lambda>fieldSchema.
            Option.bind
              (if openAPITag \<noteq> '''' then parseOpenAPITag sf openAPITag fieldSchema required fieldName
               else Some (fieldSchema, required))
              (\<lambda>parsed.
                 (let docTag = Tag field ''doc'';
                      fieldSchema' =
                        (if docTag \<noteq> '''' then (fst parsed)(''description'' \<mapsto> JString docTag)
                         else fst parsed)
                  in Some (properties(fieldName \<mapsto> JObject fieldSchema'), snd parsed)))))))"

text \<open>The schema \<open>structToSchema\<close> returns after the loop.\<close>

definition structResult :: "schema \<times> string list \<Rightarrow> schema" where
  "structResult st =
     (let schema = [''type'' \<mapsto> JString ''object'', ''properties'' \<mapsto> JObject (fst st)] in
      if length (snd st) > 0 then schema(''required'' \<mapsto> JStrings (snd st)) else schema)"

lemma forEach_mono [partial_function_mono]:
  assumes "\<And>x st. mono_option (\<lambda>f. B f x st)"
  shows "mono_option (\<lambda>f. forEach (B f) xs st)"
proof (induction xs arbitrary: st)
  case Nil
  show ?case by (simp add: option.const_mono)
next
  case (Cons x xs)
  show ?case
    unfolding forEach.simps
    by (rule bind_mono) (rule assms, rule Cons.IH)
qed

lemma structField_mono [partial_function_mono]:
  assumes "\<And>t. mono_option (\<lambda>f. R f t)"
  shows "mono_option (\<lambda>f. structField sf (R f) field st)"
  unfolding structField_def Let_def
  by (intro partial_function_mono assms)

text \<open>
  \<open>typeToSchema\<close> with \<open>structToSchema\<close>, \<open>arrayToSchema\<close> and \<open>mapToSchema\<close>, which call
  it back: one recursive function, the three named separately below. \<open>None\<close> is a call
  that returns no schema. The Go code has no guard against a type that contains itself:
  the recursion then never returns (the goroutine's stack overflows). The only other
  way to return no schema is a panic of \<open>parseOpenAPITag\<close>, which the schema of a field
  never causes (\<open>typeToSchema_type\<close> and \<open>parseOpenAPITag_result\<close> below).
\<close>

partial_function (option) typeToSchema ::
  "(string \<Rightarrow> float64 option) \<Rightarrow> types \<Rightarrow> tyref \<Rightarrow> schema option" where
  "typeToSchema sf U t =
     (let k = Kind (U t) in
      if k = Struct then
        Option.bind (forEach (structField sf (typeToSchema sf U)) (Fields (U t)) (Map.empty, []))
          (\<lambda>st. Some (structResult st))
      else if k = Slice \<or> k = Array then
        Option.bind (typeToSchema sf U (Elem (U t)))
          (\<lambda>items. Some [''type'' \<mapsto> JString ''array'', ''items'' \<mapsto> JObject items])
      else if k = Map then
        Option.bind (typeToSchema sf U (Elem (U t)))
          (\<lambda>additional.
             Some [''type'' \<mapsto> JString ''object'', ''additionalProperties'' \<mapsto> JObject additional])
      else if k = String then Some [''type'' \<mapsto> JString ''string'']
      else if k \<in> {IntK, Int8, Int16, Int32, Int64, Uint, Uint8, Uint16, Uint32, Uint64} then
        Some [''type'' \<mapsto> JString ''integer'']
      else if k = Float32 \<or> k = Float64 then Some [''type'' \<mapsto> JString ''number'']
      else if k = Bool then Some [''type'' \<mapsto> JString ''boolean'']
      else Some [''type'' \<mapsto> JString ''object''])"

definition structToSchema ::
  "(string \<Rightarrow> float64 option) \<Rightarrow> types \<Rightarrow> tyref \<Rightarrow> schema option" where
  "structToSchema sf U t =
     Option.bind (forEach (structField sf (typeToSchema sf U)) (Fields (U t)) (Map.empty, []))
       (\<lambda>st. Some (structResult st))"

definition arrayToSchema ::
  "(string \<Rightarrow> float64 option) \<Rightarrow> types \<Rightarrow> tyref \<Rightarrow> schema option" where
  "arrayToSchema sf U t =
     Option.bind (typeToSchema sf U (Elem (U t)))
       (\<lambda>items. Some [''type'' \<mapsto> JString ''array'', ''items'' \<mapsto> JObject items])"

definition mapToSchema ::
  "(string \<Rightarrow> float64 option) \<Rightarrow> types \<Rightarrow> tyref \<Rightarrow> schema option" where
  "mapToSchema sf U t =
     Option.bind (typeToSchema sf U (Elem (U t)))
       (\<lambda>additional.
          Some [''type'' \<mapsto> JString ''object'', ''additionalProperties'' \<mapsto> JObject additional])"

text \<open>
  The argument of \<open>reflectToJSONSchema\<close> is an \<open>interface{}\<close>: \<open>Nil\<close>, a value of dynamic
  type \<open>string\<close> (\<open>Str\<close>, with its content, which the document assembler reads), or a
  value of another dynamic type, of which only the type matters. The type of a \<open>Str\<close>
  is the predeclared \<open>string\<close>: no pointer, and of kind \<open>String\<close>, for which
  \<open>typeToSchema\<close> answers \<open>{type: "string"}\<close>.
\<close>

datatype iface = Nil | Str string | Val tyref

text \<open>
  The loop \<open>for t.Kind() == reflect.Ptr { t = t.Elem() }\<close>, which has no end on a pointer
  type that points to itself (\<open>type P *P\<close>).
\<close>

partial_function (option) derefPtr :: "types \<Rightarrow> tyref \<Rightarrow> tyref option" where
  "derefPtr U t = (if Kind (U t) = Ptr then derefPtr U (Elem (U t)) else Some t)"

definition reflectToJSONSchema ::
  "(string \<Rightarrow> float64 option) \<Rightarrow> types \<Rightarrow> iface \<Rightarrow> schema option" where
  "reflectToJSONSchema sf U v =
     (case v of
        Nil \<Rightarrow> Some [''type'' \<mapsto> JString ''object'']
      | Str s \<Rightarrow> Some [''type'' \<mapsto> JString ''string'']
      | Val t \<Rightarrow> Option.bind (derefPtr U t) (typeToSchema sf U))"

section \<open>The document model (\<open>types.go\<close>)\<close>

text \<open>
  The structs of \<open>types.go\<close> as records. Field names that several structs share carry a
  prefix for their struct. A pointer field is an \<open>option\<close> (\<open>None\<close> for \<open>nil\<close>); a Go map
  is a partial function, the \<open>nil\<close> map being the empty one. The \<open>Handler\<close> of an
  \<open>EndpointConfig\<close> is never read by the generators and is left out. \<open>ec_Responses\<close> is
  the map from status codes to response values as the list of its entries, in the
  order in which the \<open>range\<close> loops of the generators happen to visit them.
\<close>

record EndpointConfig =
  ec_Method :: string
  ec_Path :: string
  ec_Summary :: string
  ec_Description :: string
  ec_Tags :: "string list"
  ec_RequestBody :: iface
  ec_Responses :: "(int \<times> iface) list"
  ec_Security :: "string list"

record OpenAPIInfo =
  Title :: string
  info_Description :: string
  info_Version :: string

record OpenAPIServer =
  URL :: string
  srv_Description :: string

record MediaType =
  Schema :: schema
  Example :: iface

record RequestBody =
  rb_Description :: string
  rb_Required :: bool
  rb_Content :: "string \<Rightarrow> MediaType option"

record Response =
  resp_Description :: string
  resp_Content :: "string \<Rightarrow> MediaType option"

record Operation =
  op_Summary :: string
  op_Description :: string
  op_Tags :: "string list"
  OperationID :: string
  op_RequestBody :: "RequestBody option"
  op_Responses :: "string \<Rightarrow> Response option"
  op_Security :: "(string \<Rightarrow> string list option) list"

record PathItem =
  Get :: "Operation option"
  Post :: "Operation option"
  Put :: "Operation option"
  Delete :: "Operation option"
  Patch :: "Operation option"

record SecurityScheme =
  ss_Type :: string
  Scheme :: string
  ss_Description :: string

record OpenAPIComponents =
  Schemas :: "string \<Rightarrow> schema option"
  SecuritySchemes :: "string \<Rightarrow> SecurityScheme option"

record OpenAPISpec =
  OpenAPI :: string
  Info :: OpenAPIInfo
  Servers :: "OpenAPIServer list"
  Paths :: "string \<Rightarrow> PathItem option"
  Components :: "OpenAPIComponents option"

record RequestBodySchema =
  rbs_ContentType :: string
  rbs_Schema :: schema
  rbs_Required :: bool
  rbs_Example :: iface

record ResponseSchema =
  rs_Description :: string
  rs_ContentType :: string
  rs_Schema :: "schema option"
  rs_Example :: iface

record APIEndpoint =
  ae_Method :: string
  ae_Path :: string
  ae_Summary :: string
  ae_Description :: string
  ae_RequestBody :: "RequestBodySchema option"
  ae_Responses :: "string \<Rightarrow> ResponseSchema option"
  ae_Tags :: "string list"

record APIDescription =
  ServiceName :: string
  ad_Version :: string
  BaseURL :: string
  Endpoints :: "APIEndpoint list"

record EndpointRegistry =
  endpoints :: "EndpointConfig list"
  info :: OpenAPIInfo
  baseURL :: string

section \<open>The registry and the generators (\<open>registry.go\<close>)\<close>

text \<open>
  \<open>http.StatusText\<close> of the Go standard library: the phrase of a status code, and the
  empty string for a code it does not know.
\<close>

definition statusTable :: "(int \<times> string) list" where
  "statusTable =
    [(100, ''Continue''), (101, ''Switching Protocols''), (102, ''Processing''),
     (103, ''Early Hints''),
     (200, ''OK''), (201, ''Created''), (202, ''Accepted''),
     (203, ''Non-Authoritative Information''), (204, ''No Content''),
     (205, ''Reset Content''), (206, ''Partial Content''), (207, ''Multi-Status''),
     (208, ''Already Reported''), (226, ''IM Used''),
     (300, ''Multiple Choices''), (301, ''Moved Permanently''), (302, ''Found''),
     (303, ''See Other''), (304, ''Not Modified''), (305, ''Use Proxy''),
     (307, ''Temporary Redirect''), (308, ''Permanent Redirect''),
     (400, ''Bad Request''), (401, ''Unauthorized''), (402, ''Payment Required''),
     (403, ''Forbidden''), (404, ''Not Found''), (405, ''Method Not Allowed''),
     (406, ''Not Acceptable''), (407, ''Proxy Authentication Required''),
     (408, ''Request Timeout''), (409, ''Conflict''), (410, ''Gone''),
     (411, ''Length Required''), (412, ''Precondition Failed''),
     (413, ''Request Entity Too Large''), (414, ''Request URI Too Long''),
     (415, ''Unsupported Media Type''), (416, ''Requested Range Not Satisfiable''),
     (417, ''Expectation Failed''), (418, ''I'm a teapot''),
     (421, ''Misdirected Request''), (422, ''Unprocessable Entity''), (423, ''Locked''),
     (424, ''Failed Dependency''), (425, ''Too Early''), (426, ''Upgrade Required''),
     (428, ''Precondition Required''), (429, ''Too Many Requests''),
     (431, ''Request Header Fields Too Large''), (451, ''Unavailable For Legal Reasons''),
     (500, ''Internal Server Error''), (501, ''Not Implemented''), (502, ''Bad Gateway''),
     (503, ''Service Unavailable''), (504, ''Gateway Timeout''),
     (505, ''HTTP Version Not Supported''), (506, ''Variant Also Negotiates''),
     (507, ''Insufficient Storage''), (508, ''Loop Detected''), (510, ''Not Extended''),
     (511, ''Network Authentication Required'')]"

definition http_StatusText :: "int \<Rightarrow> string" where
  "http_StatusText code = (case map_of statusTable code of Some s \<Rightarrow> s | None \<Rightarrow> [])"

definition SetServiceInfo ::
  "string \<Rightarrow> string \<Rightarrow> string \<Rightarrow> string \<Rightarrow> EndpointRegistry \<Rightarrow> EndpointRegistry" where
  "SetServiceInfo title version description url registry =
     registry\<lparr>info := \<lparr>Title = title, info_Description = description, info_Version = version\<rparr>,
              baseURL := url\<rparr>"

definition RegisterEndpoint :: "EndpointConfig \<Rightarrow> EndpointRegistry \<Rightarrow> EndpointRegistry" where
  "RegisterEndpoint cfg registry = registry\<lparr>endpoints := endpoints registry @ [cfg]\<rparr>"

text \<open>
  One iteration of the loop over \<open>endpoint.Responses\<close> in \<open>endpointToOperation\<close>; the
  state is \<open>op.Responses\<close>.
\<close>

definition operationResponse ::
  "(string \<Rightarrow> float64 option) \<Rightarrow> types \<Rightarrow> int \<times> iface \<Rightarrow> (string \<Rightarrow> Response option)
     \<Rightarrow> (string \<Rightarrow> Response option) option" where
  "operationResponse sf U entry responses =
     (let statusCode = fst entry; responseType = snd entry;
          statusStr0 = http_StatusText statusCode;
          statusStr = (if statusStr0 = [] then ''Response'' else statusStr0);
          response = \<lparr>resp_Description = statusStr, resp_Content = Map.empty\<rparr>
      in
      Option.bind
        (if responseType \<noteq> Nil then
           (case responseType of
              Str desc \<Rightarrow> Some (response\<lparr>resp_Description := desc\<rparr>)
            | _ \<Rightarrow>
                Option.bind (reflectToJSONSchema sf U responseType)
                  (\<lambda>schema.
                     Some (response\<lparr>resp_Content :=
                             [''application/json'' \<mapsto> \<lparr>Schema = schema, Example = Nil\<rparr>]\<rparr>)))
         else Some response)
        (\<lambda>response'. Some (responses(http_StatusText statusCode \<mapsto> response'))))"

text \<open>
  \<open>endpointToOperation\<close> receives the map \<open>schemas\<close> of the document's components, which
  it could update in place: the model returns it with the operation.
\<close>

definition endpointToOperation ::
  "(string \<Rightarrow> float64 option) \<Rightarrow> types \<Rightarrow> EndpointConfig \<Rightarrow> (string \<Rightarrow> schema option)
     \<Rightarrow> (Operation \<times> (string \<Rightarrow> schema option)) option" where
  "endpointToOperation sf U endpoint schemas =
     Option.bind
       (if ec_RequestBody endpoint \<noteq> Nil then
          Option.bind (reflectToJSONSchema sf U (ec_RequestBody endpoint))
            (\<lambda>schema.
               Some (Some \<lparr>rb_Description = [], rb_Required = True,
                           rb_Content = [''application/json'' \<mapsto> \<lparr>Schema = schema, Example = Nil\<rparr>]\<rparr>))
        else Some None)
       (\<lambda>requestBody.
          Option.bind (forEach (operationResponse sf U) (ec_Responses endpoint) Map.empty)
            (\<lambda>responses.
               Some (\<lparr>op_Summary = ec_Summary endpoint,
                       op_Description = ec_Description endpoint,
                       op_Tags = ec_Tags endpoint,
                       OperationID = [],
                       op_RequestBody = requestBody,
                       op_Responses = responses,
                       op_Security =
                         (if length (ec_Security endpoint) > 0
                          then map (\<lambda>scheme. [scheme \<mapsto> []]) (ec_Security endpoint)
                          else [])\<rparr>,
                     schemas)))"

definition emptyPathItem :: PathItem where
  "emptyPathItem = \<lparr>Get = None, Post = None, Put = None, Delete = None, Patch = None\<rparr>"

text \<open>
  One iteration of the loop over the registry's endpoints in \<open>GenerateOpenAPI\<close>; the
  state is \<open>spec.Paths\<close> and \<open>spec.Components.Schemas\<close>.
\<close>

definition addEndpoint ::
  "(string \<Rightarrow> float64 option) \<Rightarrow> types \<Rightarrow> EndpointConfig
     \<Rightarrow> (string \<Rightarrow> PathItem option) \<times> (string \<Rightarrow> schema option)
     \<Rightarrow> ((string \<Rightarrow> PathItem option) \<times> (string \<Rightarrow> schema option)) option" where
  "addEndpoint sf U endpoint st =
     (let paths = fst st; schemas = snd st;
          pathItem = (case paths (ec_Path endpoint) of Some p \<Rightarrow> p | None \<Rightarrow> emptyPathItem)
      in
      Option.bind (endpointToOperation sf U endpoint schemas)
        (\<lambda>res.
           (let operation = fst res; schemas' = snd res;
                pathItem' =
                  (if ec_Method endpoint = ''GET'' then pathItem\<lparr>Get := Some operation\<rparr>
                   else if ec_Method endpoint = ''POST'' then pathItem\<lparr>Post := Some operation\<rparr>
                   else if ec_Method endpoint = ''PUT'' then pathItem\<lparr>Put := Some operation\<rparr>
                   else if ec_Method endpoint = ''DELETE'' then pathItem\<lparr>Delete := Some operation\<rparr>
                   else if ec_Method endpoint = ''PATCH'' then pathItem\<lparr>Patch := Some operation\<rparr>
                   else pathItem)
            in Some (paths(ec_Path endpoint \<mapsto> pathItem'), schemas'))))"

definition securitySchemes :: "string \<Rightarrow> SecurityScheme option" where
  "securitySchemes =
     [''mTLS'' \<mapsto>
        \<lparr>ss_Type = ''mutualTLS'', Scheme = [],
         ss_Description = ''Mutual TLS authentication with client certificates''\<rparr>,
      ''Bearer'' \<mapsto>
        \<lparr>ss_Type = ''http'', Scheme = ''bearer'',
         ss_Description =
           ''JWT Bearer token authentication (ADR-031: OAuth2 scopes validated against AuthorizationElements)''\<rparr>]"

text \<open>
  \<open>GenerateOpenAPI\<close> reads the registry under its read lock; the model takes the
  registry it reads as an argument.
\<close>

definition GenerateOpenAPI ::
  "(string \<Rightarrow> float64 option) \<Rightarrow> types \<Rightarrow> EndpointRegistry \<Rightarrow> OpenAPISpec option" where
  "GenerateOpenAPI sf U registry =
     Option.bind (forEach (addEndpoint sf U) (endpoints registry) (Map.empty, Map.empty))
       (\<lambda>st.
          Some \<lparr>OpenAPI = ''3.0.0'',
                Info = info registry,
                Servers = [\<lparr>URL = baseURL registry, srv_Description = []\<rparr>],
                Paths = fst st,
                Components = Some \<lparr>Schemas = snd st, SecuritySchemes = securitySchemes\<rparr>\<rparr>)"

text \<open>One iteration of the loop over \<open>endpoint.Responses\<close> in \<open>GenerateAPIDescription\<close>.\<close>

definition descriptionResponse ::
  "(string \<Rightarrow> float64 option) \<Rightarrow> types \<Rightarrow> int \<times> iface \<Rightarrow> (string \<Rightarrow> ResponseSchema option)
     \<Rightarrow> (string \<Rightarrow> ResponseSchema option) option" where
  "descriptionResponse sf U entry responses =
     (let statusCode = fst entry; responseType = snd entry;
          statusStr0 = http_StatusText statusCode;
          statusStr = (if statusStr0 = [] then ''Response'' else statusStr0);
          respSchema = \<lparr>rs_Description = statusStr, rs_ContentType = ''application/json'',
                        rs_Schema = None, rs_Example = Nil\<rparr>
      in
      Option.bind
        (if responseType \<noteq> Nil then
           (case responseType of
              Str desc \<Rightarrow> Some (respSchema\<lparr>rs_Description := desc, rs_ContentType := ''text/plain''\<rparr>)
            | _ \<Rightarrow>
                Option.bind (reflectToJSONSchema sf U responseType)
                  (\<lambda>schema. Some (respSchema\<lparr>rs_Schema := Some schema\<rparr>)))
         else Some respSchema)
        (\<lambda>respSchema'. Some (responses(http_StatusText statusCode \<mapsto> respSchema'))))"

text \<open>One iteration of the loop over the registry's endpoints in \<open>GenerateAPIDescription\<close>.\<close>

definition describeEndpoint ::
  "(string \<Rightarrow> float64 option) \<Rightarrow> types \<Rightarrow> EndpointConfig \<Rightarrow> APIEndpoint list
     \<Rightarrow> APIEndpoint list option" where
  "describeEndpoint sf U endpoint acc =
     Option.bind
       (if ec_RequestBody endpoint \<noteq> Nil then
          Option.bind (reflectToJSONSchema sf U (ec_RequestBody endpoint))
            (\<lambda>schema.
               Some (Some \<lparr>rbs_ContentType = ''application/json'', rbs_Schema = schema,
                           rbs_Required = True, rbs_Example = Nil\<rparr>))
        else Some None)
       (\<lambda>requestBody.
          Option.bind (forEach (descriptionResponse sf U) (ec_Responses endpoint) Map.empty)
            (\<lambda>responses.
               Some (acc @
                 [\<lparr>ae_Method = ec_Method endpoint,
                   ae_Path = ec_Path endpoint,
                   ae_Summary = ec_Summary endpoint,
                   ae_Description = ec_Description endpoint,
                   ae_RequestBody = requestBody,
                   ae_Responses = responses,
                   ae_Tags = ec_Tags endpoint\<rparr>])))"

definition GenerateAPIDescription ::
  "(string \<Rightarrow> float64 option) \<Rightarrow> types \<Rightarrow> EndpointRegistry \<Rightarrow> APIDescription option" where
  "GenerateAPIDescription sf U registry =
     Option.bind (forEach (describeEndpoint sf U) (endpoints registry) [])
       (\<lambda>eps.
          Some \<lparr>ServiceName = Title (info registry),
                ad_Version = info_Version (info registry),
                BaseURL = baseURL registry,
                Endpoints = eps\<rparr>)"

section \<open>Inputs and notions the properties are stated with\<close>

text \<open>A struct tag given by its key/value pairs, read as \<open>StructTag.Get\<close> reads it.\<close>

definition tagOf :: "(string \<times> string) list \<Rightarrow> string \<Rightarrow> string" where
  "tagOf kvs key = (case map_of kvs key of Some v \<Rightarrow> v | None \<Rightarrow> [])"

text \<open>
  \<^verbatim>\<open>type T struct { Age int `json:"age" openapi:"default=50"` }\<close>, with \<open>T\<close> at
  reference 0 and \<open>int\<close> at every other reference.
\<close>

definition ageTypes :: types where
  "ageTypes = (\<lambda>t.
     if t = 0 then
       \<lparr>Kind = Struct, Elem = 0,
        Fields = [\<lparr>Name = ''Age'', PkgPath = [], Type = 1,
                   Tag = tagOf [(''json'', ''age''), (''openapi'', ''default=50'')]\<rparr>]\<rparr>
     else \<lparr>Kind = IntK, Elem = 0, Fields = []\<rparr>)"

text \<open>
  \<^verbatim>\<open>type T struct { Name *string `json:"name"` }\<close>, with \<open>T\<close> at reference 0,
  \<open>*string\<close> at reference 1 and \<open>string\<close> at every other reference.
\<close>

definition namePtrTypes :: types where
  "namePtrTypes = (\<lambda>t.
     if t = 0 then
       \<lparr>Kind = Struct, Elem = 0,
        Fields = [\<lparr>Name = ''Name'', PkgPath = [], Type = 1,
                   Tag = tagOf [(''json'', ''name'')]\<rparr>]\<rparr>
     else if t = 1 then \<lparr>Kind = Ptr, Elem = 2, Fields = []\<rparr>
     else \<lparr>Kind = String, Elem = 0, Fields = []\<rparr>)"

text \<open>
  The fields \<open>structToSchema\<close> does not skip: exported, with a \<open>json\<close> tag that is neither
  empty nor \<open>"-"\<close>. \<open>fieldName\<close> is the name such a field gets in \<open>properties\<close>.
\<close>

definition walked :: "StructField \<Rightarrow> bool" where
  "walked f = (IsExported f \<and> Tag f ''json'' \<noteq> [] \<and> Tag f ''json'' \<noteq> ''-'')"

definition fieldName :: "StructField \<Rightarrow> string" where
  "fieldName f = hd (Split (Tag f ''json'') (CHR '',''))"

text \<open>How many parts of an \<open>openapi\<close> tag are the bare token \<open>required\<close>.\<close>

definition requiredTokens :: "string \<Rightarrow> nat" where
  "requiredTokens tag = length (filter (\<lambda>p. TrimSpace p = ''required'') (Split tag (CHR '','')))"

text \<open>
  The names the fields of a struct put on its \<open>required\<close> list: in the order of the
  fields, the name of each walked field once for every \<open>required\<close> token of its tag.
\<close>

definition requiredNames :: "StructField list \<Rightarrow> string list" where
  "requiredNames fs =
     concat (map (\<lambda>f. replicate (requiredTokens (Tag f ''openapi'')) (fieldName f)) (filter walked fs))"

text \<open>
  The types on which the walk of \<open>typeToSchema\<close> ends: the walk goes from a slice, an
  array or a map to its element type and from a struct to the types of its walked
  fields, and nowhere from any other kind. A type that reaches itself on this walk
  (\<^verbatim>\<open>type Node struct { Children []Node `json:"children"` }\<close>) is not among them.
\<close>

inductive finite_walk :: "types \<Rightarrow> tyref \<Rightarrow> bool" for U :: types where
  leaf: "Kind (U t) \<notin> {Struct, Slice, Array, Map} \<Longrightarrow> finite_walk U t"
| elem: "Kind (U t) \<in> {Slice, Array, Map} \<Longrightarrow> finite_walk U (Elem (U t)) \<Longrightarrow> finite_walk U t"
| struct: "Kind (U t) = Struct \<Longrightarrow>
     (\<forall>f \<in> set (Fields (U t)). walked f \<longrightarrow> finite_walk U (Type f)) \<Longrightarrow>
     finite_walk U t"

text \<open>\<open>derefs_to U t t'\<close>: following pointers from \<open>t\<close> ends at the non-pointer type \<open>t'\<close>.\<close>

inductive derefs_to :: "types \<Rightarrow> tyref \<Rightarrow> tyref \<Rightarrow> bool" for U :: types where
  here: "Kind (U t) \<noteq> Ptr \<Longrightarrow> derefs_to U t t"
| step: "Kind (U t) = Ptr \<Longrightarrow> derefs_to U (Elem (U t)) t' \<Longrightarrow> derefs_to U t t'"

text \<open>The kinds the switch of \<open>typeToSchema\<close> has a case for.\<close>

definition mappedKinds :: "kind set" where
  "mappedKinds = {Struct, Slice, Array, Map, String, IntK, Int8, Int16, Int32, Int64,
     Uint, Uint8, Uint16, Uint32, Uint64, Float32, Float64, Bool}"

text \<open>
  A request and a response type in the manner of the README's quick start:
  \<^verbatim>\<open>
  type CreateUserRequest struct {
      Name    string   `json:"name" openapi:"required,minLength=1"`
      Age     int      `json:"age,omitempty" openapi:"required,min=1,bogus=xyz"`
      Friends []string `json:"friends" doc:"user names"`
      secret  *CreateUserRequest `json:"secret"`
  }
  type CreateUserResponse struct { ID string `json:"id"` }\<close>
  at the references 0 and 1, \<open>string\<close> at 2, \<open>int\<close> at 3, \<open>[]string\<close> at 4 and
  \<open>*CreateUserRequest\<close> at every other reference.
\<close>

definition userTypes :: types where
  "userTypes = (\<lambda>t.
     if t = 0 then
       \<lparr>Kind = Struct, Elem = 0,
        Fields =
          [\<lparr>Name = ''Name'', PkgPath = [], Type = 2,
            Tag = tagOf [(''json'', ''name''), (''openapi'', ''required,minLength=1'')]\<rparr>,
           \<lparr>Name = ''Age'', PkgPath = [], Type = 3,
            Tag = tagOf [(''json'', ''age,omitempty''), (''openapi'', ''required,min=1,bogus=xyz'')]\<rparr>,
           \<lparr>Name = ''Friends'', PkgPath = [], Type = 4,
            Tag = tagOf [(''json'', ''friends''), (''doc'', ''user names'')]\<rparr>,
           \<lparr>Name = ''secret'', PkgPath = ''main'', Type = 5,
            Tag = tagOf [(''json'', ''secret'')]\<rparr>]\<rparr>
     else if t = 1 then
       \<lparr>Kind = Struct, Elem = 0,
        Fields = [\<lparr>Name = ''ID'', PkgPath = [], Type = 2, Tag = tagOf [(''json'', ''id'')]\<rparr>]\<rparr>
     else if t = 2 then \<lparr>Kind = String, Elem = 0, Fields = []\<rparr>
     else if t = 3 then \<lparr>Kind = IntK, Elem = 0, Fields = []\<rparr>
     else if t = 4 then \<lparr>Kind = Slice, Elem = 2, Fields = []\<rparr>
     else \<lparr>Kind = Ptr, Elem = 0, Fields = []\<rparr>)"

text \<open>A universe in which every reference is a function type, a kind the switch has no case for.\<close>

definition funcTypes :: types where
  "funcTypes = (\<lambda>t. \<lparr>Kind = Func, Elem = 0, Fields = []\<rparr>)"

text \<open>\<^verbatim>\<open>type Node struct { Children []Node `json:"children"` }\<close> at reference 0, \<open>[]Node\<close> elsewhere.\<close>

definition nodeTypes :: types where
  "nodeTypes = (\<lambda>t.
     if t = 0 then
       \<lparr>Kind = Struct, Elem = 0,
        Fields = [\<lparr>Name = ''Children'', PkgPath = [], Type = 1,
                   Tag = tagOf [(''json'', ''children'')]\<rparr>]\<rparr>
     else \<lparr>Kind = Slice, Elem = 0, Fields = []\<rparr>)"


text \<open>The endpoint of the README's quick start, and a registry that holds it.\<close>

definition createUser :: EndpointConfig where
  "createUser =
     \<lparr>ec_Method = ''POST'', ec_Path = ''/api/v1/users'', ec_Summary = ''Create User'',
      ec_Description = ''Creates a new user account'', ec_Tags = [''users''],
      ec_RequestBody = Val 0,
      ec_Responses = [(201, Val 1), (400, Str ''Invalid request'')],
      ec_Security = [''Bearer'']\<rparr>"

definition quickStart :: EndpointRegistry where
  "quickStart =
     \<lparr>endpoints = [createUser],
      info = \<lparr>Title = ''my-service'', info_Description = ''My awesome service'',
               info_Version = ''1.0.0''\<rparr>,
      baseURL = ''https://localhost:8080''\<rparr>"


text \<open>
  An endpoint with a response that has no value (\<open>204: nil\<close>) and one whose status code
  \<open>http.StatusText\<close> does not know.
\<close>

definition deleteUser :: EndpointConfig where
  "deleteUser =
     \<lparr>ec_Method = ''DELETE'', ec_Path = ''/api/v1/users'', ec_Summary = ''Delete User'',
      ec_Description = [], ec_Tags = [''users''], ec_RequestBody = Nil,
      ec_Responses = [(204, Nil), (299, Str ''Custom'')],
      ec_Security = []\<rparr>"

text \<open>The methods the switch of \<open>GenerateOpenAPI\<close> has a case for.\<close>

definition recognizedMethods :: "string set" where
  "recognizedMethods = {''GET'', ''POST'', ''PUT'', ''DELETE'', ''PATCH''}"

text \<open>
  What the loop of \<open>GenerateOpenAPI\<close> does to \<open>spec.Paths\<close> when it stores no operation:
  the item of the path is read, or made empty when there is none, and written back.
\<close>

definition touchPath :: "string \<Rightarrow> (string \<Rightarrow> PathItem option) \<Rightarrow> (string \<Rightarrow> PathItem option)" where
  "touchPath path paths =
     paths(path \<mapsto> (case paths path of Some p \<Rightarrow> p | None \<Rightarrow> emptyPathItem))"

text \<open>\<open>strings.Join(parts, sep)\<close> for a separator of one byte: the tag whose parts are \<open>parts\<close>.\<close>

fun Join :: "string list \<Rightarrow> char \<Rightarrow> string" where
  "Join [] sep = []"
| "Join [p] sep = p"
| "Join (p # q # ps) sep = p @ sep # Join (q # ps) sep"

text \<open>
  The keys of the annotation language, and the key of a part: what stands before its
  first \<open>=\<close>, trimmed.
\<close>

definition recognizedKeys :: "string set" where
  "recognizedKeys = {''enum'', ''min'', ''minimum'', ''max'', ''maximum'', ''minLength'', ''maxLength'',
     ''pattern'', ''default'', ''description'', ''format'', ''example''}"

definition partKey :: "string \<Rightarrow> string" where
  "partKey part = TrimSpace (hd (SplitN2 (TrimSpace part) (CHR ''='')))"

text \<open>
  The parts the parser is to ignore: those that are not the bare token \<open>required\<close> and
  have no \<open>=\<close> or a key that is not recognized.
\<close>

definition dropped :: "string \<Rightarrow> bool" where
  "dropped part =
     (TrimSpace part \<noteq> ''required'' \<and>
      (CHR ''='' \<notin> set (TrimSpace part) \<or> partKey part \<notin> recognizedKeys))"

text \<open>
  What a part writes to: the schema key it assigns (\<open>min\<close> and \<open>max\<close> assign
  \<open>minimum\<close> and \<open>maximum\<close>), \<open>required\<close> for the bare token, which appends to the
  required list (no part assigns the schema key \<open>required\<close>), and nothing for a
  dropped part.
\<close>

definition writes :: "string \<Rightarrow> string option" where
  "writes part =
     (if TrimSpace part = ''required'' then Some ''required''
      else if dropped part then None
      else if partKey part = ''min'' then Some ''minimum''
      else if partKey part = ''max'' then Some ''maximum''
      else Some (partKey part))"

section \<open>Properties\<close>

subsection \<open>The loops over strings, by the first character\<close>

lemma TrimLeftSpace_Nil [simp]: "TrimLeftSpace [] = []"
  by (simp add: TrimLeftSpace.simps)

lemma TrimLeftSpace_Cons [simp]:
  "TrimLeftSpace (c # cs) =
     (case spaceRune (c # cs) of None \<Rightarrow> c # cs | Some r \<Rightarrow> TrimLeftSpace r)"
  by (rule TrimLeftSpace.simps)

lemma TrimRightSpaceRev_Nil [simp]: "TrimRightSpaceRev [] = []"
  by (simp add: TrimRightSpaceRev.simps)

lemma TrimRightSpaceRev_Cons [simp]:
  "TrimRightSpaceRev (c # cs) =
     (case spaceRuneRev (c # cs) of None \<Rightarrow> c # cs | Some r \<Rightarrow> TrimRightSpaceRev r)"
  by (rule TrimRightSpaceRev.simps)

lemma SkipSpace_Nil [simp]: "SkipSpace [] = Some []"
  by (simp add: SkipSpace.simps)

lemma SkipSpace_Cons [simp]:
  "SkipSpace (c # cs) =
     (if c = CHR 0x0D \<and> cs \<noteq> [] \<and> hd cs = CHR 0x0A then SkipSpace cs
      else if c = CHR 0x0A then None
      else (case spaceRune (c # cs) of None \<Rightarrow> Some (c # cs) | Some r \<Rightarrow> SkipSpace r))"
  by (subst SkipSpace.simps) simp

lemma Split_Nil [simp]: "Split [] sep = [[]]"
  by (simp add: Split.simps)

lemma Split_not_Nil [simp]: "Split s sep \<noteq> []"
  by (subst Split.simps) simp

lemma Split_Cons [simp]:
  "Split (c # cs) sep =
     (if c = sep then [] # Split cs sep
      else (case Split cs sep of p # ps \<Rightarrow> (c # p) # ps | [] \<Rightarrow> []))"
proof (cases "c = sep")
  case True
  then show ?thesis by (subst Split.simps) simp
next
  case False
  show ?thesis
  proof (cases "sep \<in> set cs")
    case True
    with False show ?thesis
      by (subst Split.simps, subst (2) Split.simps) simp
  next
    case False
    with \<open>c \<noteq> sep\<close> show ?thesis
      by (subst Split.simps, subst (2) Split.simps) simp
  qed
qed


subsection \<open>Values of \<open>default\<close> and \<open>example\<close>\<close>

text \<open>
  C1. A \<open>default=<literal>\<close> (or \<open>example=<literal>\<close>) on a field of type \<open>integer\<close> is to
  be stored as the integer the literal denotes, and as a number for type \<open>number\<close>.
  \<open>parseValue\<close> returns the zero value instead, whatever the literal: for the field
  \<^verbatim>\<open>Age int `json:"age" openapi:"default=50"`\<close> the schema holds \<open>default: 0\<close>, and a
  \<open>number\<close> gets the float zero. For \<open>boolean\<close> the value is true exactly for the
  literal \<open>true\<close>, and for another type it is the literal itself.
\<close>

theorem default_integer_placeholder:
  "parseValue s ''integer'' = JInt 0 \<and>
   parseValue s ''number'' = JFloat (Float64bits 0) \<and>
   parseValue s ''boolean'' = JBool (s = ''true'') \<and>
   parseValue s ''string'' = JString s \<and>
   structToSchema sf ageTypes 0 =
     Some [''type'' \<mapsto> JString ''object'',
           ''properties'' \<mapsto>
             JObject [''age'' \<mapsto> JObject [''type'' \<mapsto> JString ''integer'', ''default'' \<mapsto> JInt 0]]]"
  by (simp add: parseValue_def structToSchema_def structField_def structResult_def IsExported_def
      ageTypes_def tagOf_def typeToSchema.simps parseOpenAPITag_def tagPart_def TrimSpace_def
      SplitN2_def)

subsection \<open>Pointers\<close>

text \<open>
  C3. A pointer is to be followed before the dispatch on the kind, so that a field of
  type pointer to string gets the schema of a string. \<open>reflectToJSONSchema\<close> follows
  pointers only for the value it is given: on \<open>*string\<close> itself it answers
  \<open>{type: "string"}\<close>. For a field, \<open>structToSchema\<close> calls \<open>typeToSchema\<close>, which has
  no case for pointers, and the field \<^verbatim>\<open>Name *string `json:"name"`\<close> gets
  \<open>{type: "object"}\<close>.
\<close>

theorem pointer_field_is_object:
  "reflectToJSONSchema sf namePtrTypes (Val 1) = Some [''type'' \<mapsto> JString ''string''] \<and>
   reflectToJSONSchema sf namePtrTypes (Val 0) =
     Some [''type'' \<mapsto> JString ''object'',
           ''properties'' \<mapsto> JObject [''name'' \<mapsto> JObject [''type'' \<mapsto> JString ''object'']]]"
  by (simp add: reflectToJSONSchema_def derefPtr.simps structField_def structResult_def IsExported_def
      namePtrTypes_def tagOf_def typeToSchema.simps)

subsection \<open>Numeric bounds\<close>

text \<open>
  C7. A bound is to be tried as an integer, then as a floating-point number, and kept
  as a string when it is neither, so that \<open>"1.5"\<close> is stored as the number 1.5 and
  \<open>"abc"\<close> as a string. \<open>parseNumber\<close> tries \<open>fmt.Sscanf(s, "%d", &i)\<close> first, which on
  \<open>"1.5"\<close> reads the digit \<open>1\<close>, stops at the point and reports no error: the bound is
  the integer 1, whatever the float scan would give. On \<open>"abc"\<close> the integer scan
  fails, and the string is kept when the float scan fails too.
\<close>

theorem parseNumber_decimal_prefix:
  "parseIntHelper ''1.5'' = Some 1 \<and> parseNumber sf ''1.5'' = JInt 1 \<and>
   parseIntHelper ''abc'' = None \<and> parseNumber (\<lambda>s. None) ''abc'' = JString ''abc''"
  by (simp add: parseNumber_def parseIntHelper_def parseFloatHelper_def isDigit_def decimal_def)

subsection \<open>The annotation parser, part by part\<close>

lemma tagPart_type:
  "tagPart sf n part (s, r) = Some (s', r') \<Longrightarrow> s' ''type'' = s ''type''"
  unfolding tagPart_def Let_def
  by (auto split: if_splits option.splits jvalue.splits)

lemma tagPart_required:
  "tagPart sf n part (s, r) = Some (s', r') \<Longrightarrow>
     r' = r @ (if TrimSpace part = ''required'' then [n] else [])"
  unfolding tagPart_def Let_def
  by (auto split: if_splits option.splits jvalue.splits)

lemma tagPart_total:
  "s ''type'' = Some (JString ty) \<Longrightarrow> \<exists>st'. tagPart sf n part (s, r) = Some st'"
  unfolding tagPart_def Let_def
  by (auto split: if_splits option.splits jvalue.splits)

lemma tagParts_result:
  "s ''type'' = Some (JString ty) \<Longrightarrow>
   \<exists>s'. tagParts sf n ps (s, r) =
          Some (s', r @ replicate (length (filter (\<lambda>p. TrimSpace p = ''required'') ps)) n)
        \<and> s' ''type'' = Some (JString ty)"
proof (induction ps arbitrary: s r)
  case Nil
  then show ?case by simp
next
  case (Cons p ps)
  from Cons.prems have "\<exists>st'. tagPart sf n p (s, r) = Some st'" by (rule tagPart_total)
  then obtain s1 r1 where p: "tagPart sf n p (s, r) = Some (s1, r1)" by fastforce
  from tagPart_type [OF p] Cons.prems have ty: "s1 ''type'' = Some (JString ty)" by simp
  from tagPart_required [OF p]
  have r1: "r1 = r @ (if TrimSpace p = ''required'' then [n] else [])" .
  from ty have "\<exists>s'. tagParts sf n ps (s1, r1) =
          Some (s', r1 @ replicate (length (filter (\<lambda>p. TrimSpace p = ''required'') ps)) n)
        \<and> s' ''type'' = Some (JString ty)" by (rule Cons.IH)
  then obtain s' where
    "tagParts sf n ps (s1, r1) =
       Some (s', r1 @ replicate (length (filter (\<lambda>p. TrimSpace p = ''required'') ps)) n)"
    and "s' ''type'' = Some (JString ty)" by blast
  with p r1 show ?case by (auto simp: replicate_app_Cons_same)
qed

lemma parseOpenAPITag_result:
  "s ''type'' = Some (JString ty) \<Longrightarrow>
   \<exists>s'. parseOpenAPITag sf tag s r n = Some (s', r @ replicate (requiredTokens tag) n)
        \<and> s' ''type'' = Some (JString ty)"
  unfolding parseOpenAPITag_def requiredTokens_def by (rule tagParts_result)

lemma requiredTokens_empty: "requiredTokens [] = 0"
  by (simp add: requiredTokens_def TrimSpace_def)

subsection \<open>The loop over the fields of a struct\<close>

lemma structField_skip: "\<not> walked f \<Longrightarrow> structField sf tts f st = Some st"
  by (auto simp: structField_def walked_def Let_def)

lemma structField_walk:
  assumes "walked f" and "tts (Type f) = Some s" and "s ''type'' = Some (JString ty)"
  shows "\<exists>s'. structField sf tts f (props, req) =
            Some (props(fieldName f \<mapsto> JObject s'),
                  req @ replicate (requiredTokens (Tag f ''openapi'')) (fieldName f))"
proof (cases "Tag f ''openapi'' = []")
  case True
  with assms show ?thesis
    by (auto simp: structField_def walked_def fieldName_def Let_def requiredTokens_empty)
next
  case False
  from assms(3) have "\<exists>s'. parseOpenAPITag sf (Tag f ''openapi'') s req (fieldName f) =
      Some (s', req @ replicate (requiredTokens (Tag f ''openapi'')) (fieldName f))
        \<and> s' ''type'' = Some (JString ty)" by (rule parseOpenAPITag_result)
  then obtain s' where "parseOpenAPITag sf (Tag f ''openapi'') s req (fieldName f) =
      Some (s', req @ replicate (requiredTokens (Tag f ''openapi'')) (fieldName f))" by blast
  with assms False show ?thesis
    by (auto simp: structField_def walked_def fieldName_def Let_def)
qed

lemma fields_loop:
  assumes "\<forall>f \<in> set fs. walked f \<longrightarrow> (\<exists>s ty. tts (Type f) = Some s \<and> s ''type'' = Some (JString ty))"
  shows "\<exists>props'. forEach (structField sf tts) fs (props, req) = Some (props', req @ requiredNames fs)
           \<and> dom props' = dom props \<union> fieldName ` set (filter walked fs)"
  using assms
proof (induction fs arbitrary: props req)
  case Nil
  show ?case by (simp add: requiredNames_def)
next
  case (Cons f fs)
  from Cons.prems have rest:
    "\<forall>f \<in> set fs. walked f \<longrightarrow> (\<exists>s ty. tts (Type f) = Some s \<and> s ''type'' = Some (JString ty))"
    by simp
  show ?case
  proof (cases "walked f")
    case False
    from rest have "\<exists>props'. forEach (structField sf tts) fs (props, req) =
          Some (props', req @ requiredNames fs)
        \<and> dom props' = dom props \<union> fieldName ` set (filter walked fs)"
      by (rule Cons.IH)
    with False show ?thesis by (simp add: structField_skip requiredNames_def)
  next
    case True
    let ?req = "req @ replicate (requiredTokens (Tag f ''openapi'')) (fieldName f)"
    from True Cons.prems obtain s ty where "tts (Type f) = Some s" "s ''type'' = Some (JString ty)"
      by auto
    with True have "\<exists>s'. structField sf tts f (props, req) =
        Some (props(fieldName f \<mapsto> JObject s'), ?req)"
      by (rule structField_walk)
    then obtain s' where
      f: "structField sf tts f (props, req) = Some (props(fieldName f \<mapsto> JObject s'), ?req)"
      by blast
    from rest have "\<exists>props'. forEach (structField sf tts) fs (props(fieldName f \<mapsto> JObject s'), ?req) =
          Some (props', ?req @ requiredNames fs)
        \<and> dom props' = dom (props(fieldName f \<mapsto> JObject s')) \<union> fieldName ` set (filter walked fs)"
      by (rule Cons.IH)
    then obtain props' where
      "forEach (structField sf tts) fs (props(fieldName f \<mapsto> JObject s'), ?req) =
          Some (props', ?req @ requiredNames fs)"
      "dom props' = dom (props(fieldName f \<mapsto> JObject s')) \<union> fieldName ` set (filter walked fs)"
      by blast
    with True f show ?thesis by (simp add: requiredNames_def)
  qed
qed

subsection \<open>The walk returns where it ends\<close>

lemma typeToSchema_type:
  "typeToSchema sf U t = Some s \<Longrightarrow> \<exists>ty. s ''type'' = Some (JString ty)"
  by (subst (asm) typeToSchema.simps)
     (auto simp: Let_def structResult_def split: if_splits bind_splits)

lemma finite_walk_returns: "finite_walk U t \<Longrightarrow> \<exists>s. typeToSchema sf U t = Some s"
proof (induction rule: finite_walk.induct)
  case (leaf t)
  then show ?case by (subst typeToSchema.simps) (auto simp: Let_def)
next
  case (elem t)
  then show ?case by (subst typeToSchema.simps) (auto simp: Let_def)
next
  case (struct t)
  then have "\<forall>f \<in> set (Fields (U t)). walked f \<longrightarrow>
      (\<exists>s ty. typeToSchema sf U (Type f) = Some s \<and> s ''type'' = Some (JString ty))"
    using typeToSchema_type by blast
  from fields_loop [OF this, of sf Map.empty "[]"] struct(1) show ?case
    by (subst typeToSchema.simps) (auto simp: Let_def)
qed

lemma derefs_to_derefPtr: "derefs_to U t t' \<Longrightarrow> derefPtr U t = Some t'"
  by (induction rule: derefs_to.induct) (subst derefPtr.simps, simp)+





lemma finite_walk_user: "finite_walk userTypes 0"
proof (rule finite_walk.struct)
  show "Kind (userTypes 0) = Struct" by (simp add: userTypes_def)
  have w2: "finite_walk userTypes 2" and w3: "finite_walk userTypes 3"
    by (rule finite_walk.leaf, simp add: userTypes_def)+
  have w4: "finite_walk userTypes 4"
  proof (rule finite_walk.elem)
    show "Kind (userTypes 4) \<in> {Slice, Array, Map}" by (simp add: userTypes_def)
    have "Elem (userTypes 4) = 2" by (simp add: userTypes_def)
    with w2 show "finite_walk userTypes (Elem (userTypes 4))" by simp
  qed
  have "map (\<lambda>f. (walked f, Type f)) (Fields (userTypes 0)) =
      [(True, 2), (True, 3), (True, 4), (False, 5)]"
    by (simp add: userTypes_def walked_def IsExported_def tagOf_def)
  then have "\<forall>f \<in> set (Fields (userTypes 0)). (walked f, Type f) \<in> {(True, 2), (True, 3), (True, 4), (False, 5)}"
    by (metis (no_types, lifting) image_eqI list.set_map list.simps(15) empty_set)
  with w2 w3 w4 show "\<forall>f \<in> set (Fields (userTypes 0)). walked f \<longrightarrow> finite_walk userTypes (Type f)"
    by auto
qed

lemma nodeTypes_no_schema:
  assumes "typeToSchema sf U t = Some y"
  shows "U \<noteq> nodeTypes"
proof (rule typeToSchema.raw_induct [where P = "\<lambda>sf U t y. U \<noteq> nodeTypes", OF _ assms])
  fix tts :: "(string \<Rightarrow> float64 option) \<Rightarrow> types \<Rightarrow> tyref \<Rightarrow> schema option"
  fix sf U t y
  assume IH: "\<And>sf U t y. tts sf U t = Some y \<Longrightarrow> U \<noteq> nodeTypes"
  assume step: "(let k = Kind (U t) in
      if k = Struct then
        Option.bind (forEach (structField sf (tts sf U)) (Fields (U t)) (Map.empty, []))
          (\<lambda>st. Some (structResult st))
      else if k = Slice \<or> k = Array then
        Option.bind (tts sf U (Elem (U t)))
          (\<lambda>items. Some [''type'' \<mapsto> JString ''array'', ''items'' \<mapsto> JObject items])
      else if k = Map then
        Option.bind (tts sf U (Elem (U t)))
          (\<lambda>additional.
             Some [''type'' \<mapsto> JString ''object'', ''additionalProperties'' \<mapsto> JObject additional])
      else if k = String then Some [''type'' \<mapsto> JString ''string'']
      else if k \<in> {IntK, Int8, Int16, Int32, Int64, Uint, Uint8, Uint16, Uint32, Uint64} then
        Some [''type'' \<mapsto> JString ''integer'']
      else if k = Float32 \<or> k = Float64 then Some [''type'' \<mapsto> JString ''number'']
      else if k = Bool then Some [''type'' \<mapsto> JString ''boolean'']
      else Some [''type'' \<mapsto> JString ''object'']) = Some y"
  show "U \<noteq> nodeTypes"
  proof
    assume U: "U = nodeTypes"
    show False
    proof (cases "t = 0")
      case True
      with step U obtain fs where "tts sf nodeTypes 1 = Some fs"
        by (auto simp: nodeTypes_def structField_def IsExported_def Let_def tagOf_def
                 split: bind_splits if_splits)
      with IH show False by blast
    next
      case False
      with step U obtain fs where "tts sf nodeTypes 0 = Some fs"
        by (auto simp: nodeTypes_def split: bind_splits)
      with IH show False by blast
    qed
  qed
qed

subsection \<open>Termination of the reflector\<close>

text \<open>
  C2, amended. \<open>reflectToJSONSchema\<close> returns a schema for \<open>nil\<close> and for every value
  whose type, after its pointers are followed, is one on which the walk of
  \<open>typeToSchema\<close> ends; a kind the switch has no case for gives \<open>{type: "object"}\<close>.
  The specification promises a schema for every type, a record that contains a
  sequence of itself included: there the recursion never returns, as the last theorem
  of this subsection shows for \<open>Node\<close>.
\<close>

theorem reflect_returns_where_walk_ends:
  assumes "derefs_to U t t'" and "finite_walk U t'"
  shows "reflectToJSONSchema sf U Nil = Some [''type'' \<mapsto> JString ''object''] \<and>
    (\<exists>s. reflectToJSONSchema sf U (Val t) = Some s \<and> typeToSchema sf U t' = Some s
       \<and> (Kind (U t') \<notin> mappedKinds \<longrightarrow> s = [''type'' \<mapsto> JString ''object'']))"
proof -
  from assms(2) obtain s where s: "typeToSchema sf U t' = Some s"
    using finite_walk_returns by blast
  from assms(1) have "derefPtr U t = Some t'" by (rule derefs_to_derefPtr)
  with s have r: "reflectToJSONSchema sf U (Val t) = Some s"
    by (simp add: reflectToJSONSchema_def)
  have "Kind (U t') \<notin> mappedKinds \<longrightarrow> s = [''type'' \<mapsto> JString ''object'']"
  proof
    assume "Kind (U t') \<notin> mappedKinds"
    then have "typeToSchema sf U t' = Some [''type'' \<mapsto> JString ''object'']"
      by (subst typeToSchema.simps) (simp add: mappedKinds_def)
    with s show "s = [''type'' \<mapsto> JString ''object'']" by simp
  qed
  with r s show ?thesis by (simp add: reflectToJSONSchema_def)
qed

theorem reflect_returns_where_walk_ends_witness:
  "derefs_to userTypes 5 0 \<and> finite_walk userTypes 0 \<and>
   reflectToJSONSchema (\<lambda>s. None) userTypes Nil = Some [''type'' \<mapsto> JString ''object''] \<and>
   (\<exists>s. reflectToJSONSchema (\<lambda>s. None) userTypes (Val 5) = Some s
      \<and> typeToSchema (\<lambda>s. None) userTypes 0 = Some s) \<and>
   derefs_to funcTypes 0 0 \<and> finite_walk funcTypes 0 \<and> Kind (funcTypes 0) \<notin> mappedKinds \<and>
   reflectToJSONSchema (\<lambda>s. None) funcTypes (Val 0) = Some [''type'' \<mapsto> JString ''object'']"
proof -
  have "Kind (userTypes 0) \<noteq> Ptr" by (simp add: userTypes_def)
  then have "derefs_to userTypes 0 0" by (rule derefs_to.here)
  moreover have "Kind (userTypes 5) = Ptr" "Elem (userTypes 5) = 0" by (simp_all add: userTypes_def)
  ultimately have d: "derefs_to userTypes 5 0" by (simp add: derefs_to.step)
  from reflect_returns_where_walk_ends [OF d finite_walk_user, of "\<lambda>s. None"]
  have u: "reflectToJSONSchema (\<lambda>s. None) userTypes Nil = Some [''type'' \<mapsto> JString ''object''] \<and>
   (\<exists>s. reflectToJSONSchema (\<lambda>s. None) userTypes (Val 5) = Some s
      \<and> typeToSchema (\<lambda>s. None) userTypes 0 = Some s)"
    by blast
  have k: "Kind (funcTypes 0) \<notin> mappedKinds" by (simp add: funcTypes_def mappedKinds_def)
  have df: "derefs_to funcTypes 0 0" by (rule derefs_to.here) (simp add: funcTypes_def)
  have wf: "finite_walk funcTypes 0" by (rule finite_walk.leaf) (simp add: funcTypes_def)
  from reflect_returns_where_walk_ends [OF df wf, of "\<lambda>s. None"] k
  have f: "reflectToJSONSchema (\<lambda>s. None) funcTypes (Val 0) = Some [''type'' \<mapsto> JString ''object'']"
    by auto
  from d finite_walk_user u df wf k f show ?thesis by (intro conjI) simp_all
qed

theorem self_reference_counterexample:
  "reflectToJSONSchema (\<lambda>s. None) nodeTypes (Val 0) = None"
proof -
  have "derefPtr nodeTypes 0 = Some 0"
    by (subst derefPtr.simps) (simp add: nodeTypes_def)
  moreover have "typeToSchema (\<lambda>s. None) nodeTypes 0 = None"
    using nodeTypes_no_schema by (cases "typeToSchema (\<lambda>s. None) nodeTypes 0") auto
  ultimately show ?thesis by (simp add: reflectToJSONSchema_def)
qed


subsection \<open>Properties and required names of a struct\<close>




subsection \<open>Loops that may not return\<close>


lemma forEach_invariant:
  assumes "forEach body xs st = Some st'" and "P st"
    and "\<And>x s s'. x \<in> set xs \<Longrightarrow> P s \<Longrightarrow> body x s = Some s' \<Longrightarrow> P s'"
  shows "P st'"
  using assms
proof (induction xs arbitrary: st)
  case Nil
  then show ?case by simp
next
  case (Cons x xs)
  from Cons.prems(1) obtain s1 where s1: "body x st = Some s1" and rest: "forEach body xs s1 = Some st'"
    by (auto split: bind_splits)
  from Cons.prems(3) [of x st s1] Cons.prems(2) s1 have "P s1" by simp
  with rest Cons.prems(3) show ?case by (intro Cons.IH [of s1]) auto
qed

lemma endpointToOperation_schemas:
  "endpointToOperation sf U e schemas = Some res \<Longrightarrow> snd res = schemas"
  by (auto simp: endpointToOperation_def split: bind_splits if_splits)

lemma addEndpoint_schemas:
  "addEndpoint sf U e st = Some st' \<Longrightarrow> snd st' = snd st"
  by (auto simp: addEndpoint_def Let_def split: bind_splits dest: endpointToOperation_schemas)

subsection \<open>The generators on an empty registry\<close>

text \<open>
  C9. With no endpoint registered, \<open>GenerateOpenAPI\<close> returns a document with no paths,
  no component schemas and exactly the two security schemes \<open>mTLS\<close> and \<open>Bearer\<close>, and
  \<open>GenerateAPIDescription\<close> one with no endpoints; both return.
\<close>

theorem empty_registry_documents:
  "GenerateOpenAPI sf U \<lparr>endpoints = [], info = i, baseURL = b\<rparr> =
     Some \<lparr>OpenAPI = ''3.0.0'', Info = i, Servers = [\<lparr>URL = b, srv_Description = []\<rparr>],
           Paths = Map.empty,
           Components = Some \<lparr>Schemas = Map.empty, SecuritySchemes = securitySchemes\<rparr>\<rparr> \<and>
   dom securitySchemes = {''mTLS'', ''Bearer''} \<and>
   securitySchemes ''mTLS'' =
     Some \<lparr>ss_Type = ''mutualTLS'', Scheme = [],
           ss_Description = ''Mutual TLS authentication with client certificates''\<rparr> \<and>
   securitySchemes ''Bearer'' =
     Some \<lparr>ss_Type = ''http'', Scheme = ''bearer'',
           ss_Description =
             ''JWT Bearer token authentication (ADR-031: OAuth2 scopes validated against AuthorizationElements)''\<rparr> \<and>
   GenerateAPIDescription sf U \<lparr>endpoints = [], info = i, baseURL = b\<rparr> =
     Some \<lparr>ServiceName = Title i, ad_Version = info_Version i, BaseURL = b, Endpoints = []\<rparr>"
  by (auto simp: GenerateOpenAPI_def GenerateAPIDescription_def securitySchemes_def)

lemma quickStart_returns: "GenerateOpenAPI (\<lambda>s. None) userTypes quickStart \<noteq> None"
  by (simp add: GenerateOpenAPI_def quickStart_def createUser_def addEndpoint_def
      endpointToOperation_def operationResponse_def reflectToJSONSchema_def derefPtr.simps
      typeToSchema.simps structField_def structResult_def IsExported_def userTypes_def tagOf_def
      parseOpenAPITag_def tagPart_def TrimSpace_def SplitN2_def parseNumber_def
      parseIntHelper_def isDigit_def decimal_def parseFloatHelper_def Let_def)

subsection \<open>Component schemas\<close>

text \<open>
  C10. Whatever the registry holds, the document \<open>GenerateOpenAPI\<close> returns has an empty
  \<open>components.schemas\<close>: \<open>endpointToOperation\<close> hands the map back as it received it.
\<close>

theorem components_schemas_empty:
  assumes "GenerateOpenAPI sf U registry = Some doc"
  shows "map_option Schemas (Components doc) = Some Map.empty"
proof -
  from assms obtain st where
    loop: "forEach (addEndpoint sf U) (endpoints registry) (Map.empty, Map.empty) = Some st"
    and doc: "Components doc = Some \<lparr>Schemas = snd st, SecuritySchemes = securitySchemes\<rparr>"
    by (auto simp: GenerateOpenAPI_def split: bind_splits)
  from loop have "snd st = Map.empty"
    by (rule forEach_invariant [where P = "\<lambda>s. snd s = Map.empty"])
       (simp_all add: addEndpoint_schemas)
  with doc show ?thesis by simp
qed

theorem components_schemas_empty_witness:
  "\<exists>doc. GenerateOpenAPI (\<lambda>s. None) userTypes quickStart = Some doc
     \<and> map_option Schemas (Components doc) = Some Map.empty"
proof -
  from quickStart_returns obtain doc where
    doc: "GenerateOpenAPI (\<lambda>s. None) userTypes quickStart = Some doc" by blast
  from components_schemas_empty [OF doc] doc show ?thesis by blast
qed


lemma addEndpoint_unrecognized:
  assumes "ec_Method e \<notin> recognizedMethods" and "addEndpoint sf U e st = Some st'"
  shows "st' = (touchPath (ec_Path e) (fst st), snd st)"
  using assms
  by (auto simp: addEndpoint_def recognizedMethods_def touchPath_def Let_def
      split: bind_splits dest: endpointToOperation_schemas)






subsection \<open>Endpoints with an unrecognized method\<close>





lemma map_of_inj:
  "distinct (map snd xs) \<Longrightarrow> map_of xs a = Some s \<Longrightarrow> map_of xs b = Some s \<Longrightarrow> a = b"
proof (induction xs)
  case Nil
  then show ?case by simp
next
  case (Cons x xs)
  obtain k v where x: "x = (k, v)" by (cases x)
  from Cons.prems(1) x have nv: "v \<notin> snd ` set xs" and d: "distinct (map snd xs)" by auto
  have notin: "\<And>c. map_of xs c \<noteq> Some v"
  proof
    fix c assume "map_of xs c = Some v"
    then have "(c, v) \<in> set xs" by (rule map_of_SomeD)
    then have "v \<in> snd ` set xs" by force
    with nv show False by simp
  qed
  show ?case
  proof (cases "s = v")
    case True
    with Cons.prems(2,3) x notin show ?thesis by (auto split: if_splits)
  next
    case False
    with Cons.prems(2,3) x have "map_of xs a = Some s" "map_of xs b = Some s"
      by (auto split: if_splits)
    with d show ?thesis by (rule Cons.IH)
  qed
qed

lemma statusTable_distinct: "distinct (map snd statusTable)"
  by (simp add: statusTable_def)

lemma statusTable_nonempty: "(c, s) \<in> set statusTable \<Longrightarrow> s \<noteq> []"
  by (auto simp: statusTable_def)

lemma http_StatusText_inj:
  assumes "http_StatusText a = http_StatusText b" and "http_StatusText a \<noteq> []"
  shows "a = b"
proof -
  from assms(2) obtain s where a: "map_of statusTable a = Some s"
    by (auto simp: http_StatusText_def split: option.splits)
  with assms(2) have "s \<noteq> []" by (simp add: http_StatusText_def)
  with assms(1) a have "map_of statusTable b = Some s"
    by (auto simp: http_StatusText_def split: option.splits)
  with statusTable_distinct a show ?thesis by (rule map_of_inj)
qed


lemma operationResponse_entry:
  assumes "operationResponse sf U (c, v) m = Some m'"
  shows "(\<forall>k. k \<noteq> http_StatusText c \<longrightarrow> m' k = m k) \<and>
    (let phrase = (if http_StatusText c = [] then ''Response'' else http_StatusText c) in
     (v = Nil \<longrightarrow> m' (http_StatusText c) =
          Some \<lparr>resp_Description = phrase, resp_Content = Map.empty\<rparr>) \<and>
     (\<forall>d. v = Str d \<longrightarrow> m' (http_StatusText c) =
          Some \<lparr>resp_Description = d, resp_Content = Map.empty\<rparr>) \<and>
     (\<forall>t. v = Val t \<longrightarrow>
        (\<exists>schema. reflectToJSONSchema sf U (Val t) = Some schema \<and>
           m' (http_StatusText c) =
             Some \<lparr>resp_Description = phrase,
                   resp_Content = [''application/json'' \<mapsto> \<lparr>Schema = schema, Example = Nil\<rparr>]\<rparr>)))"
  using assms
  by (cases v) (auto simp: operationResponse_def Let_def split: bind_splits)



lemma responses_untouched:
  assumes "forEach (operationResponse sf U) rs m = Some m'"
    and "\<forall>e \<in> set rs. http_StatusText (fst e) \<noteq> k"
  shows "m' k = m k"
  using assms
proof (induction rs arbitrary: m)
  case Nil
  then show ?case by simp
next
  case (Cons e rs)
  from Cons.prems(1) obtain m1 where
    e: "operationResponse sf U e m = Some m1" and rest: "forEach (operationResponse sf U) rs m1 = Some m'"
    by (auto split: bind_splits)
  from e have "operationResponse sf U (fst e, snd e) m = Some m1" by simp
  then have "\<forall>k. k \<noteq> http_StatusText (fst e) \<longrightarrow> m1 k = m k"
    by (rule operationResponse_entry [THEN conjunct1])
  moreover from Cons.prems(2) have "k \<noteq> http_StatusText (fst e)" by auto
  ultimately have "m1 k = m k" by blast
  moreover have "m' k = m1 k"
  proof (rule Cons.IH [OF rest])
    from Cons.prems(2) show "\<forall>e \<in> set rs. http_StatusText (fst e) \<noteq> k" by simp
  qed
  ultimately show ?case by simp
qed

lemma responses_loop:
  assumes "forEach (operationResponse sf U) rs m = Some m'"
    and "(c, v) \<in> set rs"
    and "\<forall>e \<in> set rs. http_StatusText (fst e) = http_StatusText c \<longrightarrow> e = (c, v)"
  shows "\<exists>m0 m1. operationResponse sf U (c, v) m0 = Some m1
      \<and> m' (http_StatusText c) = m1 (http_StatusText c)"
  using assms
proof (induction rs arbitrary: m)
  case Nil
  then show ?case by simp
next
  case (Cons e rs)
  from Cons.prems(1) obtain m1 where
    e: "operationResponse sf U e m = Some m1" and rest: "forEach (operationResponse sf U) rs m1 = Some m'"
    by (auto split: bind_splits)
  show ?case
  proof (cases "(c, v) \<in> set rs")
    case True
    show ?thesis
    proof (rule Cons.IH [OF rest True])
      from Cons.prems(3)
      show "\<forall>e \<in> set rs. http_StatusText (fst e) = http_StatusText c \<longrightarrow> e = (c, v)"
        by simp
    qed
  next
    case False
    with Cons.prems(2) have ecv: "e = (c, v)" by simp
    from False Cons.prems(3) have "\<forall>e' \<in> set rs. http_StatusText (fst e') \<noteq> http_StatusText c"
      by auto
    with rest have "m' (http_StatusText c) = m1 (http_StatusText c)"
      by (rule responses_untouched)
    with e ecv show ?thesis by blast
  qed
qed

subsection \<open>The responses of an operation\<close>

text \<open>
  C4, amended. For an endpoint whose operation is generated and a declared response
  whose status code \<open>http.StatusText\<close> knows, the operation's \<open>responses\<close> holds under the
  status phrase: the phrase as description and no content when the value is \<open>nil\<close>; the
  string as description and no content when the value is a string; the phrase as
  description and the reflected schema under \<open>"application/json"\<close> otherwise. The
  specification has every value that is no string reflected, and the word
  \<open>"Response"\<close> standing in for the phrase of an unknown code: the last theorem of this
  subsection declares \<open>204: nil\<close>, which gets no content, and \<open>299: "Custom"\<close>, which is
  stored under the empty string.
\<close>

theorem declared_response_entry:
  assumes "endpointToOperation sf U endpoint schemas = Some (operation, schemas')"
    and "distinct (map fst (ec_Responses endpoint))"
    and "(code, v) \<in> set (ec_Responses endpoint)"
    and "http_StatusText code \<noteq> []"
  shows "(v = Nil \<longrightarrow> op_Responses operation (http_StatusText code) =
          Some \<lparr>resp_Description = http_StatusText code, resp_Content = Map.empty\<rparr>) \<and>
     (\<forall>desc. v = Str desc \<longrightarrow> op_Responses operation (http_StatusText code) =
          Some \<lparr>resp_Description = desc, resp_Content = Map.empty\<rparr>) \<and>
     (\<forall>t. v = Val t \<longrightarrow>
        (\<exists>schema. reflectToJSONSchema sf U (Val t) = Some schema \<and>
           op_Responses operation (http_StatusText code) =
             Some \<lparr>resp_Description = http_StatusText code,
                   resp_Content = [''application/json'' \<mapsto> \<lparr>Schema = schema, Example = Nil\<rparr>]\<rparr>))"
proof -
  let ?rs = "ec_Responses endpoint"
  from assms(1) have loop: "forEach (operationResponse sf U) ?rs Map.empty = Some (op_Responses operation)"
    by (auto simp: endpointToOperation_def split: bind_splits if_splits)
  have only: "\<forall>e \<in> set ?rs. http_StatusText (fst e) = http_StatusText code \<longrightarrow> e = (code, v)"
  proof (intro ballI impI)
    fix e assume e: "e \<in> set ?rs" and same: "http_StatusText (fst e) = http_StatusText code"
    from same assms(4) have "code = fst e" by (intro http_StatusText_inj) simp_all
    with e have "(code, snd e) \<in> set ?rs" by simp
    with assms(2,3) have "snd e = v" by (meson eq_key_imp_eq_value)
    with \<open>code = fst e\<close> show "e = (code, v)" by (cases e) simp
  qed
  from loop assms(3) only obtain m0 m1 where
    "operationResponse sf U (code, v) m0 = Some m1"
    and "op_Responses operation (http_StatusText code) = m1 (http_StatusText code)"
    using responses_loop by blast
  with operationResponse_entry [of sf U code v m0 m1] assms(4) show ?thesis
    by (simp add: Let_def)
qed

theorem declared_response_entry_witness:
  "\<exists>operation schema operation'.
     endpointToOperation (\<lambda>s. None) userTypes createUser Map.empty = Some (operation, Map.empty)
   \<and> distinct (map fst (ec_Responses createUser))
   \<and> ec_Responses createUser = [(201, Val 1), (400, Str ''Invalid request'')]
   \<and> http_StatusText 201 = ''Created'' \<and> http_StatusText 400 = ''Bad Request''
   \<and> reflectToJSONSchema (\<lambda>s. None) userTypes (Val 1) = Some schema
   \<and> op_Responses operation ''Created'' =
       Some \<lparr>resp_Description = ''Created'',
             resp_Content = [''application/json'' \<mapsto> \<lparr>Schema = schema, Example = Nil\<rparr>]\<rparr>
   \<and> op_Responses operation ''Bad Request'' =
       Some \<lparr>resp_Description = ''Invalid request'', resp_Content = Map.empty\<rparr>
   \<and> endpointToOperation (\<lambda>s. None) userTypes deleteUser Map.empty = Some (operation', Map.empty)
   \<and> ec_Responses deleteUser = [(204, Nil), (299, Str ''Custom'')]
   \<and> http_StatusText 204 = ''No Content''
   \<and> op_Responses operation' ''No Content'' =
       Some \<lparr>resp_Description = ''No Content'', resp_Content = Map.empty\<rparr>"
proof -
  have "endpointToOperation (\<lambda>s. None) userTypes createUser Map.empty \<noteq> None"
    by (simp add: createUser_def
      endpointToOperation_def operationResponse_def reflectToJSONSchema_def derefPtr.simps
      typeToSchema.simps structField_def structResult_def IsExported_def userTypes_def tagOf_def
      parseOpenAPITag_def tagPart_def TrimSpace_def SplitN2_def parseNumber_def
      parseIntHelper_def isDigit_def decimal_def parseFloatHelper_def Let_def)
  then obtain operation schemas' where
    op: "endpointToOperation (\<lambda>s. None) userTypes createUser Map.empty = Some (operation, schemas')"
    by auto
  from endpointToOperation_schemas [OF op] have s': "schemas' = Map.empty" by simp
  have rs: "ec_Responses createUser = [(201, Val 1), (400, Str ''Invalid request'')]"
    by (simp add: createUser_def)
  have d: "distinct (map fst (ec_Responses createUser))" by (simp add: rs)
  have t201: "http_StatusText 201 = ''Created''" and t400: "http_StatusText 400 = ''Bad Request''"
    and t204: "http_StatusText 204 = ''No Content''"
    by (simp_all add: http_StatusText_def statusTable_def)
  have "(201, Val 1) \<in> set (ec_Responses createUser)" by (simp add: rs)
  from declared_response_entry [OF op d this] t201 obtain schema where
    c: "reflectToJSONSchema (\<lambda>s. None) userTypes (Val 1) = Some schema"
    "op_Responses operation ''Created'' =
       Some \<lparr>resp_Description = ''Created'',
             resp_Content = [''application/json'' \<mapsto> \<lparr>Schema = schema, Example = Nil\<rparr>]\<rparr>"
    by auto
  have "(400, Str ''Invalid request'') \<in> set (ec_Responses createUser)" by (simp add: rs)
  from declared_response_entry [OF op d this] t400
  have b: "op_Responses operation ''Bad Request'' =
       Some \<lparr>resp_Description = ''Invalid request'', resp_Content = Map.empty\<rparr>"
    by simp
  have "endpointToOperation (\<lambda>s. None) userTypes deleteUser Map.empty \<noteq> None"
    by (simp add: deleteUser_def endpointToOperation_def operationResponse_def Let_def)
  then obtain operation' schemas'' where
    op': "endpointToOperation (\<lambda>s. None) userTypes deleteUser Map.empty = Some (operation', schemas'')"
    by auto
  from endpointToOperation_schemas [OF op'] have s'': "schemas'' = Map.empty" by simp
  have rs': "ec_Responses deleteUser = [(204, Nil), (299, Str ''Custom'')]"
    by (simp add: deleteUser_def)
  have d': "distinct (map fst (ec_Responses deleteUser))" by (simp add: rs')
  have "(204, Nil) \<in> set (ec_Responses deleteUser)" by (simp add: rs')
  from declared_response_entry [OF op' d' this] t204
  have n: "op_Responses operation' ''No Content'' =
       Some \<lparr>resp_Description = ''No Content'', resp_Content = Map.empty\<rparr>"
    by simp
  from op s' d rs t201 t400 c b op' s'' rs' t204 n show ?thesis by blast
qed

theorem declared_response_counterexample:
  "ec_Responses deleteUser = [(204, Nil), (299, Str ''Custom'')] \<and>
   map_option (\<lambda>r. (op_Responses (fst r) ''No Content'', op_Responses (fst r) ''Response'',
                     op_Responses (fst r) []))
     (endpointToOperation (\<lambda>s. None) userTypes deleteUser Map.empty) =
   Some (Some \<lparr>resp_Description = ''No Content'', resp_Content = Map.empty\<rparr>,
         None,
         Some \<lparr>resp_Description = ''Custom'', resp_Content = Map.empty\<rparr>)"
  by (simp add: deleteUser_def endpointToOperation_def operationResponse_def
      http_StatusText_def statusTable_def Let_def)

subsection \<open>Tags as lists of parts\<close>

lemma Split_no_sep: "sep \<notin> set p \<Longrightarrow> Split p sep = [p]"
  by (subst Split.simps) simp

lemma Split_append_sep: "sep \<notin> set p \<Longrightarrow> Split (p @ sep # rest) sep = p # Split rest sep"
  by (induction p) auto

lemma Split_Join:
  "ps \<noteq> [] \<Longrightarrow> \<forall>p \<in> set ps. sep \<notin> set p \<Longrightarrow> Split (Join ps sep) sep = ps"
proof (induction ps sep rule: Join.induct)
  case (1 sep)
  then show ?case by simp
next
  case (2 p sep)
  then show ?case by (simp add: Split_no_sep)
next
  case (3 p q ps sep)
  then show ?case by (simp add: Split_append_sep)
qed

lemma tagPart_empty: "tagPart sf n [] st = Some st"
  by (simp add: tagPart_def TrimSpace_def SplitN2_def)

lemma parseOpenAPITag_Join:
  assumes "\<forall>p \<in> set ps. CHR '','' \<notin> set p"
  shows "parseOpenAPITag sf (Join ps (CHR '','')) s r n = tagParts sf n ps (s, r)"
proof (cases "ps = []")
  case True
  then show ?thesis by (simp add: parseOpenAPITag_def tagPart_empty)
next
  case False
  with assms show ?thesis by (simp add: parseOpenAPITag_def Split_Join)
qed

lemma tagParts_append:
  "tagParts sf n (ps @ qs) st = Option.bind (tagParts sf n ps st) (tagParts sf n qs)"
proof (induction ps arbitrary: st)
  case Nil
  show ?case by simp
next
  case (Cons p ps)
  then show ?case by (cases "tagPart sf n p st") simp_all
qed

lemma tagPart_dropped: "dropped part \<Longrightarrow> tagPart sf n part st = Some st"
  unfolding dropped_def tagPart_def partKey_def recognizedKeys_def Let_def
  by (auto simp: SplitN2_def)

lemma tagPart_writes_None: "writes part = None \<Longrightarrow> tagPart sf n part st = Some st"
  by (rule tagPart_dropped) (auto simp: writes_def split: if_splits)

lemma tagPart_writes_required:
  "writes part = Some ''required'' \<Longrightarrow> tagPart sf n part (s, r) = Some (s, r @ [n])"
proof -
  assume w: "writes part = Some ''required''"
  have "TrimSpace part = ''required''"
  proof (rule ccontr)
    assume no: "TrimSpace part \<noteq> ''required''"
    with w have nd: "\<not> dropped part" and "partKey part = ''required''"
      by (auto simp: writes_def split: if_splits)
    then show False using no by (auto simp: dropped_def recognizedKeys_def)
  qed
  then show ?thesis by (simp add: tagPart_def)
qed

lemma tagPart_writes_key:
  assumes "writes part = Some k" and "k \<noteq> ''required''"
  shows "k \<noteq> ''type'' \<and>
    (\<exists>g. \<forall>s r. tagPart sf n part (s, r) =
       (case g (s ''type'') of None \<Rightarrow> None | Some v \<Rightarrow> Some (s(k \<mapsto> v), r)))"
proof -
  from assms have nr: "TrimSpace part \<noteq> ''required''" and nd: "\<not> dropped part"
    by (auto simp: writes_def split: if_splits)
  then have eq: "CHR ''='' \<in> set (TrimSpace part)" and key: "partKey part \<in> recognizedKeys"
    by (auto simp: dropped_def)
  define val where "val = TrimSpace (SplitN2 (TrimSpace part) (CHR ''='') ! 1)"
  from eq have len: "length (SplitN2 (TrimSpace part) (CHR ''='')) = 2" by (simp add: SplitN2_def)
  have hd0: "SplitN2 (TrimSpace part) (CHR ''='') ! 0 = hd (SplitN2 (TrimSpace part) (CHR ''=''))"
    using len by (cases "SplitN2 (TrimSpace part) (CHR ''='')") simp_all
  have kt: "k \<noteq> ''type''"
    using assms key by (auto simp: writes_def recognizedKeys_def split: if_splits)
  consider (typed) "partKey part = ''default'' \<or> partKey part = ''example''"
    | (enum) "partKey part = ''enum''"
    | (num) "partKey part \<in> {''min'', ''minimum'', ''max'', ''maximum'', ''minLength'', ''maxLength''}"
    | (str) "partKey part \<in> {''pattern'', ''description'', ''format''}"
    using key by (auto simp: recognizedKeys_def)
  then have "\<exists>g. \<forall>s r. tagPart sf n part (s, r) =
       (case g (s ''type'') of None \<Rightarrow> None | Some v \<Rightarrow> Some (s(k \<mapsto> v), r))"
  proof cases
    case typed
    let ?g = "\<lambda>ty. case ty of Some (JString typ) \<Rightarrow> Some (parseValue val typ) | _ \<Rightarrow> None"
    have "\<forall>s r. tagPart sf n part (s, r) =
       (case ?g (s ''type'') of None \<Rightarrow> None | Some v \<Rightarrow> Some (s(k \<mapsto> v), r))"
      using typed assms nr nd len hd0
      by (auto simp: tagPart_def writes_def partKey_def val_def Let_def
          split: option.splits jvalue.splits)
    then show ?thesis by (rule exI [where x = ?g])
  next
    case enum
    let ?g = "\<lambda>ty :: jvalue option. Some (JStrings (Split val (CHR ''|'')))"
    have "\<forall>s r. tagPart sf n part (s, r) =
       (case ?g (s ''type'') of None \<Rightarrow> None | Some v \<Rightarrow> Some (s(k \<mapsto> v), r))"
      using enum assms nr nd len hd0
      by (auto simp: tagPart_def writes_def partKey_def val_def Let_def)
    then show ?thesis by (rule exI [where x = ?g])
  next
    case num
    let ?g = "\<lambda>ty :: jvalue option. Some (parseNumber sf val)"
    have "\<forall>s r. tagPart sf n part (s, r) =
       (case ?g (s ''type'') of None \<Rightarrow> None | Some v \<Rightarrow> Some (s(k \<mapsto> v), r))"
      using num assms nr nd len hd0
      by (auto simp: tagPart_def writes_def partKey_def val_def Let_def)
    then show ?thesis by (rule exI [where x = ?g])
  next
    case str
    let ?g = "\<lambda>ty :: jvalue option. Some (JString val)"
    have "\<forall>s r. tagPart sf n part (s, r) =
       (case ?g (s ''type'') of None \<Rightarrow> None | Some v \<Rightarrow> Some (s(k \<mapsto> v), r))"
      using str assms nr nd len hd0
      by (auto simp: tagPart_def writes_def partKey_def val_def Let_def)
    then show ?thesis by (rule exI [where x = ?g])
  qed
  with kt show ?thesis by simp
qed


lemma tagParts_Cons_bind:
  "tagParts sf n (p # ps) st = Option.bind (tagPart sf n p st) (tagParts sf n ps)"
  by (cases "tagPart sf n p st") simp_all

lemma tagParts_Cons_fun:
  "tagParts sf n (p # ps) = (\<lambda>st. Option.bind (tagPart sf n p st) (tagParts sf n ps))"
  by (rule ext) (rule tagParts_Cons_bind)

lemma tagPart_commute:
  assumes "a = b \<or> writes a \<noteq> writes b \<or> writes a = None"
  shows "Option.bind (tagPart sf n a st) (tagPart sf n b) =
         Option.bind (tagPart sf n b st) (tagPart sf n a)"
proof -
  obtain s r where st: "st = (s, r)" by (cases st)
  have idle: "Option.bind (tagPart sf n x st) (tagPart sf n y) =
         Option.bind (tagPart sf n y st) (tagPart sf n x)" if "writes x = None" for x y
  proof -
    from that have "tagPart sf n x = Some" by (intro ext tagPart_writes_None)
    then show ?thesis by simp
  qed
  have req: "Option.bind (tagPart sf n x st) (tagPart sf n y) =
         Option.bind (tagPart sf n y st) (tagPart sf n x)"
    if x: "writes x = Some ''required''" and y: "writes y = Some k" and k: "k \<noteq> ''required''" for x y k
  proof -
    from tagPart_writes_key [OF y k, of sf n] obtain g where
      g: "\<And>s r. tagPart sf n y (s, r) =
        (case g (s ''type'') of None \<Rightarrow> None | Some v \<Rightarrow> Some (s(k \<mapsto> v), r))" by blast
    from x have "\<And>s r. tagPart sf n x (s, r) = Some (s, r @ [n])"
      by (rule tagPart_writes_required)
    with g show ?thesis by (simp add: st split: option.splits)
  qed
  show ?thesis
  proof (cases "a = b \<or> writes a = None \<or> writes b = None")
    case True
    then show ?thesis using idle [of a b] idle [of b a] by auto
  next
    case False
    with assms obtain ka kb where a: "writes a = Some ka" and b: "writes b = Some kb" and ne: "ka \<noteq> kb"
      by auto
    show ?thesis
    proof (cases "ka = ''required''")
      case True
      with a b ne show ?thesis by (intro req [of a b kb]) auto
    next
      case ka: False
      show ?thesis
      proof (cases "kb = ''required''")
        case True
        with a b ne show ?thesis by (intro req [of b a ka, symmetric]) auto
      next
        case kb: False
        from tagPart_writes_key [OF a ka, of sf n] obtain ga where
          ta: "ka \<noteq> ''type''" and
          ga: "\<And>s r. tagPart sf n a (s, r) =
            (case ga (s ''type'') of None \<Rightarrow> None | Some v \<Rightarrow> Some (s(ka \<mapsto> v), r))" by blast
        from tagPart_writes_key [OF b kb, of sf n] obtain gb where
          tb: "kb \<noteq> ''type''" and
          gb: "\<And>s r. tagPart sf n b (s, r) =
            (case gb (s ''type'') of None \<Rightarrow> None | Some v \<Rightarrow> Some (s(kb \<mapsto> v), r))" by blast
        from ta tb ne show ?thesis
          by (simp add: st ga gb fun_upd_twist split: option.splits)
      qed
    qed
  qed
qed

lemma tagParts_move_front:
  assumes "\<forall>b \<in> set qs. a = b \<or> writes a \<noteq> writes b \<or> writes a = None"
  shows "tagParts sf n (qs @ a # rest) st = tagParts sf n (a # qs @ rest) st"
  using assms
proof (induction qs arbitrary: st)
  case Nil
  show ?case by simp
next
  case (Cons q qs)
  then have IH: "\<And>s1. tagParts sf n (qs @ a # rest) s1 = tagParts sf n (a # qs @ rest) s1"
    by simp
  from Cons.prems have "a = q \<or> writes a \<noteq> writes q \<or> writes a = None" by simp
  then have comm: "Option.bind (tagPart sf n a st) (tagPart sf n q) =
         Option.bind (tagPart sf n q st) (tagPart sf n a)"
    by (rule tagPart_commute)
  have feq: "tagParts sf n (qs @ a # rest) = tagParts sf n (a # qs @ rest)"
    by (rule ext) (rule IH)
  have "tagParts sf n ((q # qs) @ a # rest) st =
      Option.bind (tagPart sf n q st) (tagParts sf n (a # qs @ rest))"
    by (simp only: append_Cons tagParts_Cons_bind [of sf n q] feq)
  also have "\<dots> = Option.bind (Option.bind (tagPart sf n q st) (tagPart sf n a))
      (tagParts sf n (qs @ rest))"
    by (simp only: tagParts_Cons_fun [of sf n a] Option.bind_assoc)
  also have "\<dots> = Option.bind (Option.bind (tagPart sf n a st) (tagPart sf n q))
      (tagParts sf n (qs @ rest))"
    by (simp only: comm)
  also have "\<dots> = tagParts sf n (a # (q # qs) @ rest) st"
    by (simp only: append_Cons tagParts_Cons_fun Option.bind_assoc)
  finally show ?case .
qed

lemma tagParts_permute:
  assumes "mset ps = mset qs"
    and "\<forall>a \<in> set ps. \<forall>b \<in> set ps. writes a = writes b \<longrightarrow> a = b \<or> writes a = None"
  shows "tagParts sf n ps st = tagParts sf n qs st"
  using assms
proof (induction ps arbitrary: qs st)
  case Nil
  then show ?case by simp
next
  case (Cons a ps)
  from Cons.prems(1) have "a \<in> set qs" by (metis list.set_intros(1) mset_eq_setD)
  then obtain q1 q2 where qs: "qs = q1 @ a # q2" by (auto simp: in_set_conv_decomp)
  with Cons.prems(1) have m: "mset ps = mset (q1 @ q2)" by simp
  from Cons.prems(2) have sub: "\<forall>a \<in> set ps. \<forall>b \<in> set ps. writes a = writes b \<longrightarrow> a = b \<or> writes a = None"
    by simp
  have IH: "\<And>s1. tagParts sf n ps s1 = tagParts sf n (q1 @ q2) s1"
    using m sub by (rule Cons.IH)
  from Cons.prems(1) have "set qs = set (a # ps)" by (metis mset_eq_setD)
  with qs have "set q1 \<subseteq> set (a # ps)" by auto
  with Cons.prems(2) have front: "\<forall>b \<in> set q1. a = b \<or> writes a \<noteq> writes b \<or> writes a = None"
    by (metis list.set_intros(1) subsetD)
  have feq: "tagParts sf n ps = tagParts sf n (q1 @ q2)"
    by (rule ext) (rule IH)
  have "tagParts sf n (a # ps) st = Option.bind (tagPart sf n a st) (tagParts sf n (q1 @ q2))"
    by (simp only: tagParts_Cons_bind feq)
  also have "\<dots> = tagParts sf n (a # q1 @ q2) st"
    by (simp only: tagParts_Cons_bind)
  also from front have "\<dots> = tagParts sf n (q1 @ a # q2) st"
    by (rule tagParts_move_front [symmetric])
  finally show ?case by (simp only: qs)
qed

subsection \<open>Unknown tokens and the order of tokens\<close>

text \<open>
  C6. Parsing an annotation on a field's schema never fails: the schema that
  \<open>typeToSchema\<close> returns holds a string under \<open>type\<close>, which is all the parser asserts.
  A part without \<open>=\<close> or with an unrecognized key has no effect: the tag with the part
  gives what the tag without it gives. The order of the parts does not matter as long
  as no two different parts write to the same key: any rearrangement of the parts
  gives the same schema and the same required list. And \<open>"required,min=1,bogus=xyz"\<close>
  adds exactly the field's name to the required list and sets \<open>minimum\<close> to the
  integer 1, leaving every other key of the schema as it was.
\<close>

theorem annotation_tokens:
  "((typeToSchema sf U t = Some schema \<or> (\<exists>typ. schema ''type'' = Some (JString typ))) \<longrightarrow>
      (\<exists>st. parseOpenAPITag sf tag schema required name = Some st)) \<and>
   ((\<forall>p \<in> set (ps @ d # qs). CHR '','' \<notin> set p) \<and> dropped d \<longrightarrow>
      parseOpenAPITag sf (Join (ps @ d # qs) (CHR '','')) schema required name =
      parseOpenAPITag sf (Join (ps @ qs) (CHR '','')) schema required name) \<and>
   ((\<forall>p \<in> set xs. CHR '','' \<notin> set p) \<and> mset xs = mset ys \<and>
    (\<forall>a \<in> set xs. \<forall>b \<in> set xs. writes a = writes b \<longrightarrow> a = b \<or> writes a = None) \<longrightarrow>
      parseOpenAPITag sf (Join xs (CHR '','')) schema required name =
      parseOpenAPITag sf (Join ys (CHR '','')) schema required name) \<and>
   parseOpenAPITag sf ''required,min=1,bogus=xyz'' schema required name =
     Some (schema(''minimum'' \<mapsto> JInt 1), required @ [name])"
proof (intro conjI impI)
  assume "typeToSchema sf U t = Some schema \<or> (\<exists>typ. schema ''type'' = Some (JString typ))"
  then obtain ty where "schema ''type'' = Some (JString ty)"
    using typeToSchema_type by blast
  then have "\<exists>s'. parseOpenAPITag sf tag schema required name =
        Some (s', required @ replicate (requiredTokens tag) name)
      \<and> s' ''type'' = Some (JString ty)"
    by (rule parseOpenAPITag_result)
  then show "\<exists>st. parseOpenAPITag sf tag schema required name = Some st" by blast
next
  assume h: "(\<forall>p \<in> set (ps @ d # qs). CHR '','' \<notin> set p) \<and> dropped d"
  then have "tagPart sf name d = Some" by (intro ext tagPart_dropped) simp
  then have "tagParts sf name (ps @ d # qs) (schema, required) =
      tagParts sf name (ps @ qs) (schema, required)"
    by (simp add: tagParts_append tagParts_Cons_fun del: tagParts.simps)
  moreover from h have "\<forall>p \<in> set (ps @ d # qs). CHR '','' \<notin> set p"
    and "\<forall>p \<in> set (ps @ qs). CHR '','' \<notin> set p" by auto
  ultimately show "parseOpenAPITag sf (Join (ps @ d # qs) (CHR '','')) schema required name =
      parseOpenAPITag sf (Join (ps @ qs) (CHR '','')) schema required name"
    by (simp only: parseOpenAPITag_Join)
next
  assume h: "(\<forall>p \<in> set xs. CHR '','' \<notin> set p) \<and> mset xs = mset ys \<and>
    (\<forall>a \<in> set xs. \<forall>b \<in> set xs. writes a = writes b \<longrightarrow> a = b \<or> writes a = None)"
  then have "set ys = set xs" by (metis mset_eq_setD)
  with h have x: "\<forall>p \<in> set xs. CHR '','' \<notin> set p" and y: "\<forall>p \<in> set ys. CHR '','' \<notin> set p"
    by simp_all
  from h have "tagParts sf name xs (schema, required) = tagParts sf name ys (schema, required)"
    by (intro tagParts_permute) simp_all
  with x y show "parseOpenAPITag sf (Join xs (CHR '','')) schema required name =
      parseOpenAPITag sf (Join ys (CHR '','')) schema required name"
    by (simp only: parseOpenAPITag_Join)
next
  show "parseOpenAPITag sf ''required,min=1,bogus=xyz'' schema required name =
     Some (schema(''minimum'' \<mapsto> JInt 1), required @ [name])"
    by (simp add: parseOpenAPITag_def tagPart_def TrimSpace_def SplitN2_def parseNumber_def
        parseIntHelper_def isDigit_def decimal_def)
qed

theorem annotation_tokens_witness:
  "typeToSchema (\<lambda>s. None) userTypes 3 = Some [''type'' \<mapsto> JString ''integer''] \<and>
   (\<exists>st. parseOpenAPITag (\<lambda>s. None) ''default=5,example=7'' [''type'' \<mapsto> JString ''integer''] [] ''age''
      = Some st) \<and>
   dropped ''bogus=xyz'' \<and>
   parseOpenAPITag (\<lambda>s. None) ''required,bogus=xyz,min=1'' [''type'' \<mapsto> JString ''integer''] [] ''age'' =
   parseOpenAPITag (\<lambda>s. None) ''required,min=1'' [''type'' \<mapsto> JString ''integer''] [] ''age'' \<and>
   map writes [''min=1'', ''required'', ''format=int32''] =
     [Some ''minimum'', Some ''required'', Some ''format''] \<and>
   parseOpenAPITag (\<lambda>s. None) ''min=1,required,format=int32'' [''type'' \<mapsto> JString ''integer''] [] ''age'' =
   parseOpenAPITag (\<lambda>s. None) ''format=int32,min=1,required'' [''type'' \<mapsto> JString ''integer''] [] ''age''"
proof -
  let ?sf = "\<lambda>s :: string. None :: float64 option"
  let ?schema = "[''type'' \<mapsto> JString ''integer'']"
  note inst = annotation_tokens [of ?sf userTypes 3 ?schema "''default=5,example=7''" "[]" "''age''"
      "[''required'']" "''bogus=xyz''" "[''min=1'']"
      "[''min=1'', ''required'', ''format=int32'']" "[''format=int32'', ''min=1'', ''required'']"]
  have t: "typeToSchema ?sf userTypes 3 = Some ?schema"
    by (simp add: typeToSchema.simps userTypes_def)
  have d: "dropped ''bogus=xyz''"
    by (simp add: dropped_def partKey_def recognizedKeys_def TrimSpace_def SplitN2_def)
  have w: "map writes [''min=1'', ''required'', ''format=int32''] =
     [Some ''minimum'', Some ''required'', Some ''format'']"
    by (simp add: writes_def dropped_def partKey_def recognizedKeys_def TrimSpace_def SplitN2_def)
  from inst t have 1: "\<exists>st. parseOpenAPITag ?sf ''default=5,example=7'' ?schema [] ''age'' = Some st"
    by blast
  from inst d have 2: "parseOpenAPITag ?sf ''required,bogus=xyz,min=1'' ?schema [] ''age'' =
      parseOpenAPITag ?sf ''required,min=1'' ?schema [] ''age''"
    by simp
  from w have "\<forall>a \<in> set [''min=1'', ''required'', ''format=int32''].
      \<forall>b \<in> set [''min=1'', ''required'', ''format=int32''].
        writes a = writes b \<longrightarrow> a = b \<or> writes a = None"
    by simp
  with inst have 3: "parseOpenAPITag ?sf ''min=1,required,format=int32'' ?schema [] ''age'' =
      parseOpenAPITag ?sf ''format=int32,min=1,required'' ?schema [] ''age''"
    by simp
  from t 1 d 2 w 3 show ?thesis by (intro conjI)
qed

end
